theory Spec2Isabelle
  imports Complex_Main
begin

section \<open>The origami animation engine of src/animation.js\<close>

text \<open>
  The class \<open>OrigamiAnimation\<close> owns a list of folding squares, a frame counter and
  the last pointer position. JavaScript numbers are modelled as mathematical reals
  (no rounding, no NaN, no infinities); the frame counter, which only ever starts at
  0 and is incremented, is a natural number; \<open>Math.floor\<close> results are integers.
\<close>

subsection \<open>Data model\<close>

text \<open>
  One object pushed by \<open>createSquares\<close>. The fields \<open>x\<close>, \<open>y\<close> and \<open>size\<close> of the
  source carry the suffix \<open>_sq\<close> here.
\<close>

record square =
  x_sq :: real
  y_sq :: real
  size_sq :: real
  rotation :: real
  rotationSpeed :: real
  color :: "string option"
  opacity :: real
  phaseX :: real
  phaseY :: real
  speedX :: real
  speedY :: real
  amplitudeX :: real
  amplitudeY :: real
  baseX :: real
  baseY :: real
  foldState :: real
  foldSpeed :: real
  layer :: int

text \<open>The fields of the \<open>OrigamiAnimation\<close> instance that the frame loop reads or writes.\<close>

record engine =
  squares :: "square list"
  time :: nat
  mouseX :: real
  mouseY :: real
  isRunning :: bool
  width :: real
  height :: real

subsection \<open>The update step, one stage per commented block of the forEach callback\<close>

text \<open>Organic movement: the displayed position is set from the base position as it is
  when the callback starts.\<close>

definition organic :: "nat \<Rightarrow> square \<Rightarrow> square" where
  "organic t sq =
     (let s1 = sq\<lparr>x_sq := baseX sq + sin (real t * 0.001 * speedX sq + phaseX sq) * amplitudeX sq\<rparr>
      in s1\<lparr>y_sq := baseY s1 + cos (real t * 0.001 * speedY s1 + phaseY s1) * amplitudeY s1\<rparr>)"

text \<open>Subtle drift.\<close>

definition drift :: "nat \<Rightarrow> nat \<Rightarrow> square \<Rightarrow> square" where
  "drift t i sq =
     (let s1 = sq\<lparr>baseX := baseX sq + sin (real t * 0.0003 + real i) * 0.1\<rparr>
      in s1\<lparr>baseY := baseY s1 + cos (real t * 0.0003 + real i) * 0.1\<rparr>)"

text \<open>Wrap around edges: four consecutive \<open>if\<close> statements without \<open>else\<close>.\<close>

definition wrap :: "real \<Rightarrow> real \<Rightarrow> square \<Rightarrow> square" where
  "wrap w h sq =
     (let s1 = (if baseX sq < - size_sq sq then sq\<lparr>baseX := w + size_sq sq\<rparr> else sq);
          s2 = (if baseX s1 > w + size_sq s1 then s1\<lparr>baseX := - size_sq s1\<rparr> else s1);
          s3 = (if baseY s2 < - size_sq s2 then s2\<lparr>baseY := h + size_sq s2\<rparr> else s2)
      in (if baseY s3 > h + size_sq s3 then s3\<lparr>baseY := - size_sq s3\<rparr> else s3))"

text \<open>Rotation.\<close>

definition rotate :: "square \<Rightarrow> square" where
  "rotate sq = sq\<lparr>rotation := rotation sq + rotationSpeed sq\<rparr>"

text \<open>Fold animation.\<close>

definition fold_animation :: "square \<Rightarrow> square" where
  "fold_animation sq =
     (let s1 = sq\<lparr>foldState := foldState sq + foldSpeed sq\<rparr>
      in (if foldState s1 > 2 * pi then s1\<lparr>foldState := 0\<rparr> else s1))"

text \<open>Mouse interaction.\<close>

definition mouse_interaction :: "real \<Rightarrow> real \<Rightarrow> square \<Rightarrow> square" where
  "mouse_interaction mx my sq =
     (let dx = mx - x_sq sq;
          dy = my - y_sq sq;
          dist = sqrt (dx * dx + dy * dy)
      in (if dist < 150 \<and> dist > 0 then
            (let force = (150 - dist) / 150;
                 s1 = sq\<lparr>baseX := baseX sq - (dx / dist) * force * 0.5\<rparr>
             in s1\<lparr>baseY := baseY s1 - (dy / dist) * force * 0.5\<rparr>)
          else sq))"

text \<open>The whole callback, for the square at index \<open>i\<close>, with \<open>t\<close> the already
  incremented \<open>this.time\<close>.\<close>

definition update_square ::
  "nat \<Rightarrow> real \<Rightarrow> real \<Rightarrow> real \<Rightarrow> real \<Rightarrow> nat \<Rightarrow> square \<Rightarrow> square" where
  "update_square t mx my w h i sq =
     mouse_interaction mx my (fold_animation (rotate (wrap w h (drift t i (organic t sq)))))"

text \<open>\<open>update()\<close>: increment the counter, then run the callback on every square with
  its index.\<close>

definition update :: "engine \<Rightarrow> engine" where
  "update st =
     (let t = time st + 1
      in st\<lparr>time := t,
            squares := map (\<lambda>(i, sq). update_square t (mouseX st) (mouseY st) (width st) (height st) i sq)
                         (enumerate 0 (squares st))\<rparr>)"

text \<open>\<open>n\<close> consecutive update ticks.\<close>

fun ticks :: "nat \<Rightarrow> engine \<Rightarrow> engine" where
  "ticks 0 st = st"
| "ticks (Suc n) st = update (ticks n st)"

subsection \<open>Creating the squares\<close>

text \<open>The colour table of the constructor and the keys \<open>createSquares\<close> draws from.
  A lookup that misses is JavaScript's \<open>undefined\<close>, here \<open>None\<close>.\<close>

definition colors :: "string \<rightharpoonup> string" where
  "colors =
     [''bg'' \<mapsto> ''#1e1f1a'', ''pink'' \<mapsto> ''#f92672'', ''green'' \<mapsto> ''#a6e22e'',
      ''yellow'' \<mapsto> ''#e6db74'', ''blue'' \<mapsto> ''#66d9ef'', ''purple'' \<mapsto> ''#ae81ff'',
      ''orange'' \<mapsto> ''#fd971f'', ''white'' \<mapsto> ''#f8f8f2'']"

definition colorKeys :: "string list" where
  "colorKeys = [''pink'', ''green'', ''yellow'', ''blue'', ''purple'', ''orange'']"

definition numSquares :: nat where
  "numSquares = 40"

text \<open>\<open>this.colors[colorKeys[Math.floor(r * colorKeys.length)]]\<close>.\<close>

definition pick_color :: "real \<Rightarrow> string option" where
  "pick_color r =
     (let k = \<lfloor>r * real (length colorKeys)\<rfloor>
      in (if 0 \<le> k \<and> k < int (length colorKeys) then colors (colorKeys ! nat k) else None))"

text \<open>
  The object literal of the loop body. \<open>Math.random\<close> is a parameter: \<open>rnd k\<close> is the
  result of the \<open>k\<close>-th call made during one run of \<open>createSquares\<close>; the literal makes
  18 calls, in the order of its properties, so square \<open>i\<close> uses the calls from \<open>18 * i\<close> on.
\<close>

definition new_square :: "(nat \<Rightarrow> real) \<Rightarrow> real \<Rightarrow> real \<Rightarrow> nat \<Rightarrow> square" where
  "new_square rnd w h i =
     (let k = 18 * i in
      \<lparr>x_sq = rnd k * w,
       y_sq = rnd (k + 1) * h,
       size_sq = 20 + rnd (k + 2) * 60,
       rotation = rnd (k + 3) * pi * 2,
       rotationSpeed = (rnd (k + 4) - 0.5) * 0.02,
       color = pick_color (rnd (k + 5)),
       opacity = 0.1 + rnd (k + 6) * 0.4,
       phaseX = rnd (k + 7) * pi * 2,
       phaseY = rnd (k + 8) * pi * 2,
       speedX = 0.3 + rnd (k + 9) * 0.5,
       speedY = 0.3 + rnd (k + 10) * 0.5,
       amplitudeX = 20 + rnd (k + 11) * 40,
       amplitudeY = 20 + rnd (k + 12) * 40,
       baseX = rnd (k + 13) * w,
       baseY = rnd (k + 14) * h,
       foldState = rnd (k + 15),
       foldSpeed = 0.005 + rnd (k + 16) * 0.01,
       layer = \<lfloor>rnd (k + 17) * 3\<rfloor>\<rparr>)"

text \<open>\<open>createSquares()\<close>: start from the empty array, push \<open>numSquares\<close> objects, sort by
  layer (the comparator \<open>a.layer - b.layer\<close>; the sort is stable).\<close>

definition createSquares :: "(nat \<Rightarrow> real) \<Rightarrow> engine \<Rightarrow> engine" where
  "createSquares rnd st =
     st\<lparr>squares := sort_key layer (map (new_square rnd (width st) (height st)) [0..<numSquares])\<rparr>"

text \<open>\<open>resize()\<close>: \<open>rw\<close> and \<open>rh\<close> are the width and height of the parent's bounding
  rectangle. What the method writes to the instance is \<open>resize\<close>; what it writes to the
  canvas element, the size of its bitmap, is \<open>resize_canvas\<close> below. The context scale,
  which only the host's rasteriser reads, is not modelled.\<close>

definition resize :: "real \<Rightarrow> real \<Rightarrow> engine \<Rightarrow> engine" where
  "resize rw rh st = st\<lparr>width := rw, height := rh\<rparr>"

text \<open>The \<open>width\<close> and \<open>height\<close> attributes of the canvas element, as \<open>resize()\<close> assigns
  them: the rectangle's sides times \<open>window.devicePixelRatio || 1\<close> (a ratio of 0 is falsy
  and replaced by 1).\<close>

record canvas =
  canvas_width :: real
  canvas_height :: real

definition resize_canvas :: "real \<Rightarrow> real \<Rightarrow> real \<Rightarrow> canvas" where
  "resize_canvas devicePixelRatio rw rh =
     (let dpr = (if devicePixelRatio = 0 then 1 else devicePixelRatio)
      in \<lparr>canvas_width = rw * dpr, canvas_height = rh * dpr\<rparr>)"

definition init :: "real \<Rightarrow> real \<Rightarrow> (nat \<Rightarrow> real) \<Rightarrow> engine \<Rightarrow> engine" where
  "init rw rh rnd st = createSquares rnd (resize rw rh st)"

subsection \<open>Drawing\<close>

text \<open>The calls made on the 2D context, recorded in order.\<close>

datatype paint =
    Color "string option"
  | RadialGradient real real real real real real "(real \<times> string) list"

datatype cmd =
    Save
  | Restore
  | Translate real real
  | Rotate real
  | FillStyle paint
  | StrokeStyle paint
  | GlobalAlpha real
  | LineWidth real
  | BeginPath
  | MoveTo real real
  | LineTo real real
  | ClosePath
  | Fill
  | Stroke
  | FillRect real real real real

text \<open>The constant \<open>fold\<close> of \<open>drawFoldedSquare\<close>.\<close>

definition fold_sq :: "square \<Rightarrow> real" where
  "fold_sq sq = sin (foldState sq * pi) * 0.5"

definition drawFoldedSquare :: "square \<Rightarrow> cmd list" where
  "drawFoldedSquare sq =
     (let x = x_sq sq; y = y_sq sq; size = size_sq sq; fold = fold_sq sq
      in [Save, Translate x y, Rotate (rotation sq), GlobalAlpha (opacity sq)]
         @ (if fold > 0.1 then
              [FillStyle (Color (color sq)), GlobalAlpha (opacity sq * 0.3), BeginPath,
               MoveTo (- size / 2) (- size / 2),
               LineTo (size / 2 * (1 - fold)) (- size / 2),
               LineTo (size / 2 * (1 - fold)) (size / 2),
               LineTo (- size / 2) (size / 2),
               ClosePath, Fill]
            else [])
         @ [FillStyle (Color (color sq)), GlobalAlpha (opacity sq), BeginPath,
            MoveTo (- size / 2 * (1 - fold * 0.3)) (- size / 2),
            LineTo (size / 2) (- size / 2 * (1 - fold * 0.5)),
            LineTo (size / 2 * (1 - fold * 0.2)) (size / 2),
            LineTo (- size / 2) (size / 2 * (1 - fold * 0.4)),
            ClosePath, Fill,
            StrokeStyle (Color (color sq)), GlobalAlpha (opacity sq * 0.5), LineWidth 1, Stroke]
         @ (if fold > 0.05 then
              [BeginPath, MoveTo (- size / 4) (- size / 2), LineTo (size / 4) (size / 2),
               GlobalAlpha (opacity sq * fold * 0.5), Stroke]
            else [])
         @ [Restore])"

definition gridSize :: real where
  "gridSize = 80"

text \<open>The two \<open>for\<close> loops of \<open>drawGridLines\<close>, from the current value of the loop
  variable on.\<close>

function vertical_lines :: "nat \<Rightarrow> real \<Rightarrow> real \<Rightarrow> real \<Rightarrow> cmd list" where
  "vertical_lines t w h x =
     (if x < w then
        (let offset = sin (real t * 0.001 + x * 0.01) * 5
         in [BeginPath, MoveTo (x + offset) 0, LineTo (x - offset) h, Stroke]
            @ vertical_lines t w h (x + gridSize))
      else [])"
  by pat_completeness auto
termination
proof (relation "measure (\<lambda>(t, w, h, x). nat \<lceil>(w - x) / gridSize\<rceil>)")
  show "wf (measure (\<lambda>(t, w, h, x). nat \<lceil>(w - x) / gridSize\<rceil>))"
    by simp
next
  fix t :: nat and w h x :: real
  assume lt: "x < w"
  have step: "(w - (x + gridSize)) / gridSize = (w - x) / gridSize - 1"
    by (simp add: gridSize_def field_simps)
  have pos: "0 < \<lceil>(w - x) / gridSize\<rceil>"
    using lt by (simp add: gridSize_def)
  show "((t, w, h, x + gridSize), (t, w, h, x)) \<in> measure (\<lambda>(t, w, h, x). nat \<lceil>(w - x) / gridSize\<rceil>)"
    using pos by (simp add: step)
qed

function horizontal_lines :: "nat \<Rightarrow> real \<Rightarrow> real \<Rightarrow> real \<Rightarrow> cmd list" where
  "horizontal_lines t w h y =
     (if y < h then
        (let offset = cos (real t * 0.001 + y * 0.01) * 5
         in [BeginPath, MoveTo 0 (y + offset), LineTo w (y - offset), Stroke]
            @ horizontal_lines t w h (y + gridSize))
      else [])"
  by pat_completeness auto
termination
proof (relation "measure (\<lambda>(t, w, h, y). nat \<lceil>(h - y) / gridSize\<rceil>)")
  show "wf (measure (\<lambda>(t, w, h, y). nat \<lceil>(h - y) / gridSize\<rceil>))"
    by simp
next
  fix t :: nat and w h y :: real
  assume lt: "y < h"
  have step: "(h - (y + gridSize)) / gridSize = (h - y) / gridSize - 1"
    by (simp add: gridSize_def field_simps)
  have pos: "0 < \<lceil>(h - y) / gridSize\<rceil>"
    using lt by (simp add: gridSize_def)
  show "((t, w, h, y + gridSize), (t, w, h, y)) \<in> measure (\<lambda>(t, w, h, y). nat \<lceil>(h - y) / gridSize\<rceil>)"
    using pos by (simp add: step)
qed

declare vertical_lines.simps [simp del] horizontal_lines.simps [simp del]

definition drawGridLines :: "engine \<Rightarrow> cmd list" where
  "drawGridLines st =
     [StrokeStyle (Color (colors ''white'')), LineWidth 0.5, GlobalAlpha 0.03]
     @ vertical_lines (time st) (width st) (height st) 0
     @ horizontal_lines (time st) (width st) (height st) 0"

definition draw :: "engine \<Rightarrow> cmd list" where
  "draw st =
     [FillStyle (Color (colors ''bg'')), FillRect 0 0 (width st) (height st)]
     @ drawGridLines st
     @ concat (map drawFoldedSquare (squares st))
     @ [FillStyle (RadialGradient (width st / 2) (height st / 2) 0
                     (width st / 2) (height st / 2) (max (width st) (height st) * 0.7)
                     [(0, ''rgba(30, 31, 26, 0)''), (1, ''rgba(30, 31, 26, 0.4)'')]),
        FillRect 0 0 (width st) (height st)]"

text \<open>
  What shows. The bitmap of a canvas element has one pixel for each column below its
  \<open>width\<close> and each row below its \<open>height\<close> (both attributes hold whole numbers: a
  fraction assigned to them is cut off). How the host turns context calls into
  painted pixels is not part of the repository: it is the parameter \<open>raster\<close>, and of
  what it paints only the pixels of the bitmap show.
\<close>

definition bitmap :: "canvas \<Rightarrow> (int \<times> int) set" where
  "bitmap cv = {0 ..< \<lfloor>canvas_width cv\<rfloor>} \<times> {0 ..< \<lfloor>canvas_height cv\<rfloor>}"

definition visible :: "(cmd list \<Rightarrow> (int \<times> int) set) \<Rightarrow> canvas \<Rightarrow> cmd list \<Rightarrow> (int \<times> int) set" where
  "visible raster cv cmds = raster cmds \<inter> bitmap cv"

subsection \<open>The frame loop and the event listeners\<close>

text \<open>
  The instance together with what the host holds for it: the number of callbacks
  handed to \<open>requestAnimationFrame\<close> that have not run yet, and the context calls of
  the latest \<open>draw()\<close>.
\<close>

record system =
  eng :: engine
  pending :: nat
  painted :: "cmd list"

definition animate :: "system \<Rightarrow> system" where
  "animate sys =
     (if \<not> isRunning (eng sys) then sys
      else (let e = update (eng sys)
            in sys\<lparr>eng := e, painted := draw e, pending := pending sys + 1\<rparr>))"

text \<open>
  What the host can deliver: a window resize (the parent's new rectangle and the random
  draws of the regeneration), a mouse move (\<open>clientX\<close>, \<open>clientY\<close> and the canvas
  rectangle's \<open>left\<close>, \<open>top\<close>), a visibility change (\<open>document.hidden\<close>), the run of one
  queued frame callback, and a call of \<open>destroy()\<close>.
\<close>

datatype event =
    Resize real real "nat \<Rightarrow> real"
  | MouseMove real real real real
  | VisibilityChange bool
  | AnimationFrame
  | Destroy

fun handle :: "system \<Rightarrow> event \<Rightarrow> system" where
  "handle sys (Resize rw rh rnd) = sys\<lparr>eng := createSquares rnd (resize rw rh (eng sys))\<rparr>"
| "handle sys (MouseMove clientX clientY rect_left rect_top) =
     sys\<lparr>eng := (eng sys)\<lparr>mouseX := clientX - rect_left, mouseY := clientY - rect_top\<rparr>\<rparr>"
| "handle sys (VisibilityChange hidden) =
     (let s1 = sys\<lparr>eng := (eng sys)\<lparr>isRunning := \<not> hidden\<rparr>\<rparr>
      in (if isRunning (eng s1) then animate s1 else s1))"
| "handle sys AnimationFrame =
     (if pending sys = 0 then sys else animate (sys\<lparr>pending := pending sys - 1\<rparr>))"
| "handle sys Destroy = sys\<lparr>eng := (eng sys)\<lparr>isRunning := False\<rparr>\<rparr>"

definition run :: "system \<Rightarrow> event list \<Rightarrow> system" where
  "run sys evs = foldl handle sys evs"

text \<open>The constructor: field initialisers, \<open>init()\<close>, then the first \<open>animate()\<close>. The
  fields \<open>width\<close> and \<open>height\<close> do not exist before \<open>resize()\<close> assigns them and are not
  read before; they start at 0 here.\<close>

definition fresh_engine :: engine where
  "fresh_engine =
     \<lparr>squares = [], time = 0, mouseX = 0, mouseY = 0, isRunning = True, width = 0, height = 0\<rparr>"

definition constructor :: "real \<Rightarrow> real \<Rightarrow> (nat \<Rightarrow> real) \<Rightarrow> system" where
  "constructor rw rh rnd =
     animate \<lparr>eng = init rw rh rnd fresh_engine, pending = 0, painted = []\<rparr>"

subsection \<open>The update step with every division by a variable checked\<close>

text \<open>JavaScript's \<open>/\<close> never raises; to state that no division by zero happens, the
  divisions of the update step are replaced by one that fails on a zero divisor.\<close>

definition checked_div :: "real \<Rightarrow> real \<Rightarrow> real option" where
  "checked_div a b = (if b = 0 then None else Some (a / b))"

definition mouse_interaction_checked :: "real \<Rightarrow> real \<Rightarrow> square \<Rightarrow> square option" where
  "mouse_interaction_checked mx my sq =
     (let dx = mx - x_sq sq;
          dy = my - y_sq sq;
          dist = sqrt (dx * dx + dy * dy)
      in (if dist < 150 \<and> dist > 0 then
            (case checked_div (150 - dist) 150 of
               None \<Rightarrow> None
             | Some force \<Rightarrow>
                 (case checked_div dx dist of
                    None \<Rightarrow> None
                  | Some ux \<Rightarrow>
                      (let s1 = sq\<lparr>baseX := baseX sq - ux * force * 0.5\<rparr>
                       in (case checked_div dy dist of
                             None \<Rightarrow> None
                           | Some uy \<Rightarrow> Some (s1\<lparr>baseY := baseY s1 - uy * force * 0.5\<rparr>)))))
          else Some sq))"

definition update_square_checked ::
  "nat \<Rightarrow> real \<Rightarrow> real \<Rightarrow> real \<Rightarrow> real \<Rightarrow> nat \<Rightarrow> square \<Rightarrow> square option" where
  "update_square_checked t mx my w h i sq =
     mouse_interaction_checked mx my (fold_animation (rotate (wrap w h (drift t i (organic t sq)))))"

definition update_checked :: "engine \<Rightarrow> engine option" where
  "update_checked st =
     (let t = time st + 1
      in (case those (map (\<lambda>(i, sq). update_square_checked t (mouseX st) (mouseY st)
                                        (width st) (height st) i sq)
                          (enumerate 0 (squares st))) of
            None \<Rightarrow> None
          | Some sqs \<Rightarrow> Some (st\<lparr>time := t, squares := sqs\<rparr>)))"


definition animate_checked :: "system \<Rightarrow> system option" where
  "animate_checked sys =
     (if \<not> isRunning (eng sys) then Some sys
      else (case update_checked (eng sys) of
              None \<Rightarrow> None
            | Some e \<Rightarrow> Some (sys\<lparr>eng := e, painted := draw e, pending := pending sys + 1\<rparr>)))"

subsection \<open>Sample inputs\<close>

text \<open>Three sequences of \<open>Math.random\<close> results, each within \<open>[0, 1)\<close>: all 0, all 1/2,
  and one that starts every fold phase at \<open>2\<pi> - 6\<close> with fold speed 1/128.\<close>

definition rnd_zero :: "nat \<Rightarrow> real" where
  "rnd_zero k = 0"

definition rnd_half :: "nat \<Rightarrow> real" where
  "rnd_half k = 1 / 2"

definition rnd_fold :: "nat \<Rightarrow> real" where
  "rnd_fold k = (if k mod 18 = 15 then 2 * pi - 6 else if k mod 18 = 16 then 9 / 32 else 0)"

text \<open>The instance as \<open>init()\<close> leaves it on an 800 by 600 parent, for the first two
  sequences.\<close>

definition zero_engine :: engine where
  "zero_engine = init 800 600 rnd_zero fresh_engine"

definition half_engine :: engine where
  "half_engine = init 800 600 rnd_half fresh_engine"

text \<open>
  A state in the middle of a run: every square sits on the left padded edge
  (\<open>baseX = -size\<close>), with phases that put the oscillation terms of the next tick at
  \<open>sin \<pi>\<close> and \<open>cos (\<pi>/2)\<close>, and the pointer is on the left border of the canvas,
  level with the squares.
\<close>

definition edge_square :: square where
  "edge_square =
     \<lparr>x_sq = - 20, y_sq = 300, size_sq = 20, rotation = 0, rotationSpeed = 0,
      color = Some ''#f92672'', opacity = 1 / 10, phaseX = pi - 1 / 2000, phaseY = pi / 2 - 1 / 2000,
      speedX = 1 / 2, speedY = 1 / 2, amplitudeX = 20, amplitudeY = 20,
      baseX = - 20, baseY = 300, foldState = 0, foldSpeed = 1 / 100, layer = 0\<rparr>"

definition edge_engine :: engine where
  "edge_engine =
     \<lparr>squares = replicate numSquares edge_square, time = 0, mouseX = 0, mouseY = 300,
      isRunning = True, width = 800, height = 600\<rparr>"

text \<open>The same squares with the pointer far to the right, at \<open>(500, 300)\<close>.\<close>

definition far_edge_engine :: engine where
  "far_edge_engine = edge_engine\<lparr>mouseX := 500\<rparr>"

text \<open>Whether an event is a mouse move.\<close>

fun is_mouse_move :: "event \<Rightarrow> bool" where
  "is_mouse_move (MouseMove clientX clientY rect_left rect_top) = True"
| "is_mouse_move _ = False"

section \<open>Properties\<close>

subsection \<open>What each stage does to each field\<close>

lemma organic_fields [simp]:
  "x_sq (organic t sq) = baseX sq + sin (real t * 0.001 * speedX sq + phaseX sq) * amplitudeX sq"
  "y_sq (organic t sq) = baseY sq + cos (real t * 0.001 * speedY sq + phaseY sq) * amplitudeY sq"
  "baseX (organic t sq) = baseX sq" "baseY (organic t sq) = baseY sq"
  "size_sq (organic t sq) = size_sq sq"
  "rotation (organic t sq) = rotation sq" "rotationSpeed (organic t sq) = rotationSpeed sq"
  "foldState (organic t sq) = foldState sq" "foldSpeed (organic t sq) = foldSpeed sq"
  by (simp_all add: organic_def Let_def)

lemma drift_fields [simp]:
  "x_sq (drift t i sq) = x_sq sq" "y_sq (drift t i sq) = y_sq sq"
  "baseX (drift t i sq) = baseX sq + sin (real t * 0.0003 + real i) * 0.1"
  "baseY (drift t i sq) = baseY sq + cos (real t * 0.0003 + real i) * 0.1"
  "size_sq (drift t i sq) = size_sq sq"
  "rotation (drift t i sq) = rotation sq" "rotationSpeed (drift t i sq) = rotationSpeed sq"
  "foldState (drift t i sq) = foldState sq" "foldSpeed (drift t i sq) = foldSpeed sq"
  by (simp_all add: drift_def Let_def)

lemma wrap_fields [simp]:
  "x_sq (wrap w h sq) = x_sq sq" "y_sq (wrap w h sq) = y_sq sq"
  "size_sq (wrap w h sq) = size_sq sq"
  "rotation (wrap w h sq) = rotation sq" "rotationSpeed (wrap w h sq) = rotationSpeed sq"
  "foldState (wrap w h sq) = foldState sq" "foldSpeed (wrap w h sq) = foldSpeed sq"
  by (simp_all add: wrap_def Let_def)

lemma wrap_baseX:
  "baseX (wrap w h sq) =
     (if baseX sq < - size_sq sq then w + size_sq sq
      else if baseX sq > w + size_sq sq then - size_sq sq else baseX sq)"
  by (simp add: wrap_def Let_def)

lemma wrap_baseY:
  "baseY (wrap w h sq) =
     (if baseY sq < - size_sq sq then h + size_sq sq
      else if baseY sq > h + size_sq sq then - size_sq sq else baseY sq)"
  by (simp add: wrap_def Let_def)

lemma rotate_fields [simp]:
  "x_sq (rotate sq) = x_sq sq" "y_sq (rotate sq) = y_sq sq"
  "baseX (rotate sq) = baseX sq" "baseY (rotate sq) = baseY sq"
  "size_sq (rotate sq) = size_sq sq"
  "rotation (rotate sq) = rotation sq + rotationSpeed sq" "rotationSpeed (rotate sq) = rotationSpeed sq"
  "foldState (rotate sq) = foldState sq" "foldSpeed (rotate sq) = foldSpeed sq"
  by (simp_all add: rotate_def)

lemma fold_animation_fields [simp]:
  "x_sq (fold_animation sq) = x_sq sq" "y_sq (fold_animation sq) = y_sq sq"
  "baseX (fold_animation sq) = baseX sq" "baseY (fold_animation sq) = baseY sq"
  "size_sq (fold_animation sq) = size_sq sq"
  "rotation (fold_animation sq) = rotation sq" "rotationSpeed (fold_animation sq) = rotationSpeed sq"
  "foldSpeed (fold_animation sq) = foldSpeed sq"
  "foldState (fold_animation sq) =
     (if foldState sq + foldSpeed sq > 2 * pi then 0 else foldState sq + foldSpeed sq)"
  by (simp_all add: fold_animation_def Let_def)

lemma mouse_interaction_fields [simp]:
  "x_sq (mouse_interaction mx my sq) = x_sq sq" "y_sq (mouse_interaction mx my sq) = y_sq sq"
  "size_sq (mouse_interaction mx my sq) = size_sq sq"
  "rotation (mouse_interaction mx my sq) = rotation sq"
  "rotationSpeed (mouse_interaction mx my sq) = rotationSpeed sq"
  "foldState (mouse_interaction mx my sq) = foldState sq"
  "foldSpeed (mouse_interaction mx my sq) = foldSpeed sq"
  by (simp_all add: mouse_interaction_def Let_def)

lemma update_fields [simp]:
  "time (update st) = time st + 1" "mouseX (update st) = mouseX st" "mouseY (update st) = mouseY st"
  "isRunning (update st) = isRunning st" "width (update st) = width st" "height (update st) = height st"
  "length (squares (update st)) = length (squares st)"
  by (simp_all add: update_def Let_def)

lemma update_nth:
  "i < length (squares st) \<Longrightarrow>
   squares (update st) ! i =
     update_square (time st + 1) (mouseX st) (mouseY st) (width st) (height st) i (squares st ! i)"
  by (simp add: update_def Let_def nth_enumerate_eq)

lemma ticks_fields [simp]:
  "time (ticks n st) = time st + n" "mouseX (ticks n st) = mouseX st" "mouseY (ticks n st) = mouseY st"
  "isRunning (ticks n st) = isRunning st" "width (ticks n st) = width st" "height (ticks n st) = height st"
  "length (squares (ticks n st)) = length (squares st)"
  by (induction n) simp_all


lemma update_square_static [simp]:
  "size_sq (update_square t mx my w h i sq) = size_sq sq"
  "rotationSpeed (update_square t mx my w h i sq) = rotationSpeed sq"
  "foldSpeed (update_square t mx my w h i sq) = foldSpeed sq"
  "rotation (update_square t mx my w h i sq) = rotation sq + rotationSpeed sq"
  "foldState (update_square t mx my w h i sq) =
     (if foldState sq + foldSpeed sq > 2 * pi then 0 else foldState sq + foldSpeed sq)"
  "x_sq (update_square t mx my w h i sq) =
     baseX sq + sin (real t * 0.001 * speedX sq + phaseX sq) * amplitudeX sq"
  "y_sq (update_square t mx my w h i sq) =
     baseY sq + cos (real t * 0.001 * speedY sq + phaseY sq) * amplitudeY sq"
  by (simp_all add: update_square_def)

lemma ticks_static:
  "i < length (squares st) \<Longrightarrow>
   size_sq (squares (ticks n st) ! i) = size_sq (squares st ! i) \<and>
   rotationSpeed (squares (ticks n st) ! i) = rotationSpeed (squares st ! i) \<and>
   foldSpeed (squares (ticks n st) ! i) = foldSpeed (squares st ! i)"
  by (induction n) (simp_all add: update_nth)

subsection \<open>Squares made from a constant random sequence\<close>

lemma sort_key_replicate: "sort_key f (replicate n c) = replicate n c"
  by (rule sort_key_id_if_sorted) simp

lemma createSquares_constant:
  assumes "\<And>i. new_square rnd (width st) (height st) i = c"
  shows "squares (createSquares rnd st) = replicate numSquares c"
proof -
  have "new_square rnd (width st) (height st) = (\<lambda>i. c)"
    by (rule ext) (rule assms)
  then show ?thesis
    by (simp add: createSquares_def map_replicate_const sort_key_replicate)
qed

lemma init_fields [simp]:
  "time (init rw rh rnd st) = time st" "mouseX (init rw rh rnd st) = mouseX st"
  "mouseY (init rw rh rnd st) = mouseY st" "isRunning (init rw rh rnd st) = isRunning st"
  "width (init rw rh rnd st) = rw" "height (init rw rh rnd st) = rh"
  "length (squares (init rw rh rnd st)) = numSquares"
  by (simp_all add: init_def createSquares_def resize_def)

lemma init_constant:
  assumes "\<And>i. new_square rnd rw rh i = c"
  shows "squares (init rw rh rnd st) = replicate numSquares c"
  unfolding init_def by (rule createSquares_constant) (simp add: resize_def assms)

lemma fresh_engine_fields [simp]:
  "time fresh_engine = 0" "mouseX fresh_engine = 0" "mouseY fresh_engine = 0"
  "isRunning fresh_engine" "squares fresh_engine = []"
  by (simp_all add: fresh_engine_def)

lemma new_square_zero:
  "new_square rnd_zero w h i =
     \<lparr>x_sq = 0, y_sq = 0, size_sq = 20, rotation = 0, rotationSpeed = - (1 / 100),
      color = Some ''#f92672'', opacity = 1 / 10, phaseX = 0, phaseY = 0,
      speedX = 3 / 10, speedY = 3 / 10, amplitudeX = 20, amplitudeY = 20,
      baseX = 0, baseY = 0, foldState = 0, foldSpeed = 1 / 200, layer = 0\<rparr>"
  by (simp add: new_square_def rnd_zero_def pick_color_def colorKeys_def colors_def)

lemma init_zero_nth:
  "i < numSquares \<Longrightarrow> squares (init w h rnd_zero st) ! i = new_square rnd_zero w h 0"
  by (simp add: init_constant [of rnd_zero w h "new_square rnd_zero w h 0"] new_square_zero)

lemma new_square_ranges:
  assumes "\<forall>k. 0 \<le> rnd k \<and> rnd k < 1"
  shows "20 \<le> size_sq (new_square rnd w h i) \<and> size_sq (new_square rnd w h i) < 80
         \<and> - (1 / 100) \<le> rotationSpeed (new_square rnd w h i)
         \<and> rotationSpeed (new_square rnd w h i) < 1 / 100
         \<and> 0 \<le> foldState (new_square rnd w h i) \<and> foldState (new_square rnd w h i) < 1
         \<and> 1 / 200 \<le> foldSpeed (new_square rnd w h i)
         \<and> foldSpeed (new_square rnd w h i) < 3 / 200"
proof -
  have r: "0 \<le> rnd k" "rnd k < 1" for k
    using assms by simp_all
  show ?thesis
    using r [of "18 * i + 2"] r [of "18 * i + 4"] r [of "18 * i + 15"] r [of "18 * i + 16"]
    by (simp add: new_square_def Let_def)
qed

subsection \<open>Rotation\<close>

text \<open>
  C6 (amended). In every tick the rotation of a square advances by its own
  \<open>rotationSpeed\<close>, which no tick changes: after \<open>n\<close> ticks it is the starting angle plus
  \<open>n\<close> times \<open>rotationSpeed\<close>. The sequence is monotone in the direction of the sign of
  \<open>rotationSpeed\<close>: non-decreasing when it is non-negative, non-increasing when it is
  non-positive.
\<close>

theorem rotation_advances:
  assumes "i < length (squares st)"
  shows "rotation (squares (ticks n st) ! i)
           = rotation (squares st ! i) + real n * rotationSpeed (squares st ! i)
         \<and> rotationSpeed (squares (ticks n st) ! i) = rotationSpeed (squares st ! i)
         \<and> (0 \<le> rotationSpeed (squares st ! i) \<longrightarrow>
              rotation (squares (ticks n st) ! i) \<le> rotation (squares (ticks (Suc n) st) ! i))
         \<and> (rotationSpeed (squares st ! i) \<le> 0 \<longrightarrow>
              rotation (squares (ticks (Suc n) st) ! i) \<le> rotation (squares (ticks n st) ! i))"
proof -
  have speed: "rotationSpeed (squares (ticks k st) ! i) = rotationSpeed (squares st ! i)" for k
    using assms ticks_static by blast
  have rot: "rotation (squares (ticks k st) ! i)
               = rotation (squares st ! i) + real k * rotationSpeed (squares st ! i)" for k
  proof (induction k)
    case 0
    show ?case by simp
  next
    case (Suc k)
    then show ?case
      using assms by (simp add: update_nth speed algebra_simps)
  qed
  show ?thesis
    using rot [of n] rot [of "Suc n"] speed [of n] by (simp add: algebra_simps)
qed

theorem rotation_advances_witness:
  "0 < length (squares (init 800 600 rnd_half fresh_engine))
   \<and> 0 \<le> rotationSpeed (squares (init 800 600 rnd_half fresh_engine) ! 0)
   \<and> rotationSpeed (squares (init 800 600 rnd_half fresh_engine) ! 0) \<le> 0
   \<and> rotation (squares (ticks 3 (init 800 600 rnd_half fresh_engine)) ! 0)
       = rotation (squares (init 800 600 rnd_half fresh_engine) ! 0)
         + 3 * rotationSpeed (squares (init 800 600 rnd_half fresh_engine) ! 0)
   \<and> rotation (squares (ticks 3 (init 800 600 rnd_half fresh_engine)) ! 0)
       \<le> rotation (squares (ticks (Suc 3) (init 800 600 rnd_half fresh_engine)) ! 0)
   \<and> rotation (squares (ticks (Suc 3) (init 800 600 rnd_half fresh_engine)) ! 0)
       \<le> rotation (squares (ticks 3 (init 800 600 rnd_half fresh_engine)) ! 0)"
proof -
  have len: "0 < length (squares (init 800 600 rnd_half fresh_engine))"
    by (simp add: numSquares_def)
  have c: "new_square rnd_half 800 600 i = new_square rnd_half 800 600 0" for i
    by (simp add: new_square_def rnd_half_def)
  have "squares (init 800 600 rnd_half fresh_engine) ! 0 = new_square rnd_half 800 600 0"
    using init_constant [of rnd_half 800 600 "new_square rnd_half 800 600 0" fresh_engine] c
    by (simp add: numSquares_def)
  then have sp: "rotationSpeed (squares (init 800 600 rnd_half fresh_engine) ! 0) = 0"
    by (simp add: new_square_def rnd_half_def)
  show ?thesis
    using len sp rotation_advances [OF len, of 3] by simp
qed

text \<open>
  C6 as stated asks for a non-decreasing sequence. \<open>createSquares\<close> draws \<open>rotationSpeed\<close>
  from \<open>[-0.01, 0.01)\<close>; with all random results 0 it is \<open>-0.01\<close> and the first tick
  lowers the angle.
\<close>

theorem rotation_decreases_counterexample:
  "rotation (squares (update (init 800 600 rnd_zero fresh_engine)) ! 0)
     < rotation (squares (init 800 600 rnd_zero fresh_engine) ! 0)"
  by (simp add: update_nth init_zero_nth numSquares_def new_square_zero)

subsection \<open>Bounds on \<open>\<pi>\<close>\<close>

lemma pi_ge_three: "3 \<le> pi"
proof -
  have "sin (pi / 6) \<le> pi / 6"
    by (rule sin_x_le_x) simp
  then show ?thesis
    by (simp add: sin_30)
qed

lemma sin_cubic_lower: "x - x ^ 3 / 6 - \<bar>x\<bar> ^ 5 / 120 \<le> sin (x::real)"
proof -
  have c: "sin_coeff (Suc 0) = 1" "sin_coeff 2 = 0" "sin_coeff 3 = - (1 / 6)" "sin_coeff 4 = 0"
    by (simp_all add: sin_coeff_def fact_numeral)
  have "{..<5::nat} = {0, 1, 2, 3, 4}"
    by auto
  then have s: "(\<Sum>m<5. sin_coeff m * x ^ m) = x - x ^ 3 / 6"
    by (simp add: c)
  have "\<bar>sin x - (\<Sum>m<5. sin_coeff m * x ^ m)\<bar> \<le> inverse (fact 5) * \<bar>x\<bar> ^ 5"
    by (rule Maclaurin_sin_bound)
  then have "\<bar>sin x - (x - x ^ 3 / 6)\<bar> \<le> \<bar>x\<bar> ^ 5 / 120"
    unfolding s by (simp add: fact_numeral)
  then show ?thesis
    by linarith
qed

lemma pi_less_seven_halves: "pi < 7 / 2"
proof (rule ccontr)
  assume "\<not> pi < 7 / 2"
  then have lo: "7 / 12 \<le> pi / 6"
    by simp
  have hi: "pi / 6 \<le> 2 / 3"
    using pi_less_4 by simp
  have nn: "0 \<le> pi / 6"
    by simp
  have p3: "(pi / 6) ^ 3 \<le> (2 / 3) ^ 3"
    by (rule power_mono [OF hi nn])
  have p5: "(pi / 6) ^ 5 \<le> (2 / 3) ^ 5"
    by (rule power_mono [OF hi nn])
  have "pi / 6 - (pi / 6) ^ 3 / 6 - \<bar>pi / 6\<bar> ^ 5 / 120 \<le> sin (pi / 6)"
    by (rule sin_cubic_lower)
  then have "pi / 6 - (pi / 6) ^ 3 / 6 - (pi / 6) ^ 5 / 120 \<le> 1 / 2"
    by (simp add: sin_30)
  moreover have "(2 / 3 :: real) ^ 3 = 8 / 27" "(2 / 3 :: real) ^ 5 = 32 / 243"
    by (simp_all add: power_divide)
  ultimately show False
    using lo p3 p5 by linarith
qed


subsection \<open>Fold phase\<close>

lemma update_foldState:
  "i < length (squares st) \<Longrightarrow>
   foldState (squares (update st) ! i) =
     (if foldState (squares st ! i) + foldSpeed (squares st ! i) > 2 * pi then 0
      else foldState (squares st ! i) + foldSpeed (squares st ! i))"
  by (simp add: update_nth)

lemma ticks_foldState_linear:
  assumes "i < length (squares st)" and "0 \<le> foldSpeed (squares st ! i)"
    and "foldState (squares st ! i) + real n * foldSpeed (squares st ! i) \<le> 2 * pi"
  shows "foldState (squares (ticks n st) ! i)
           = foldState (squares st ! i) + real n * foldSpeed (squares st ! i)"
  using assms(3)
proof (induction n)
  case 0
  show ?case by simp
next
  case (Suc n)
  have "real n * foldSpeed (squares st ! i) \<le> real (Suc n) * foldSpeed (squares st ! i)"
    using assms(2) by (simp add: mult_right_mono)
  with Suc.prems have "foldState (squares st ! i) + real n * foldSpeed (squares st ! i) \<le> 2 * pi"
    by linarith
  then have ih: "foldState (squares (ticks n st) ! i)
                   = foldState (squares st ! i) + real n * foldSpeed (squares st ! i)"
    by (rule Suc.IH)
  have sp: "foldSpeed (squares (ticks n st) ! i) = foldSpeed (squares st ! i)"
    using assms(1) ticks_static by blast
  show ?case
    using assms(1) Suc.prems by (simp add: update_foldState ih sp algebra_simps)
qed

lemma rnd_fold_range: "0 \<le> rnd_fold k \<and> rnd_fold k < 1"
  using pi_ge_three pi_less_seven_halves by (simp add: rnd_fold_def)

lemma new_square_fold:
  "new_square rnd_fold w h i =
     \<lparr>x_sq = 0, y_sq = 0, size_sq = 20, rotation = 0, rotationSpeed = - (1 / 100),
      color = Some ''#f92672'', opacity = 1 / 10, phaseX = 0, phaseY = 0,
      speedX = 3 / 10, speedY = 3 / 10, amplitudeX = 20, amplitudeY = 20,
      baseX = 0, baseY = 0, foldState = 2 * pi - 6, foldSpeed = 1 / 128, layer = 0\<rparr>"
proof -
  have r: "rnd_fold (18 * i + j) =
             (if j mod 18 = 15 then 2 * pi - 6 else if j mod 18 = 16 then 9 / 32 else 0)" for j
    by (simp add: rnd_fold_def)
  have r0: "rnd_fold (18 * i) = 0"
    by (simp add: rnd_fold_def)
  have "new_square rnd_fold w h i =
     \<lparr>x_sq = 0 * w, y_sq = 0 * h, size_sq = 20 + 0 * 60, rotation = 0 * pi * 2,
      rotationSpeed = (0 - 0.5) * 0.02, color = pick_color 0, opacity = 0.1 + 0 * 0.4,
      phaseX = 0 * pi * 2, phaseY = 0 * pi * 2, speedX = 0.3 + 0 * 0.5, speedY = 0.3 + 0 * 0.5,
      amplitudeX = 20 + 0 * 40, amplitudeY = 20 + 0 * 40, baseX = 0 * w, baseY = 0 * h,
      foldState = 2 * pi - 6, foldSpeed = 0.005 + 9 / 32 * 0.01, layer = \<lfloor>0 * 3 :: real\<rfloor>\<rparr>"
    unfolding new_square_def Let_def r r0 by simp
  then show ?thesis
    by (simp add: pick_color_def colorKeys_def colors_def)
qed

text \<open>
  C5 (amended). With a non-negative fold speed and a fold phase that starts in
  \<open>[0, 2\<pi>]\<close>, the phase is in the closed interval \<open>[0, 2\<pi>]\<close> after any number of ticks.
  Each tick adds the square's \<open>foldSpeed\<close>, which no tick changes, and sets the phase to 0
  when the sum is strictly greater than \<open>2\<pi>\<close>; a sum equal to \<open>2\<pi>\<close> is kept.
\<close>

theorem fold_phase_closed_range:
  assumes "i < length (squares st)"
    and "0 \<le> foldSpeed (squares st ! i)"
    and "0 \<le> foldState (squares st ! i)" and "foldState (squares st ! i) \<le> 2 * pi"
  shows "0 \<le> foldState (squares (ticks n st) ! i)
         \<and> foldState (squares (ticks n st) ! i) \<le> 2 * pi
         \<and> foldSpeed (squares (ticks n st) ! i) = foldSpeed (squares st ! i)
         \<and> foldState (squares (ticks (Suc n) st) ! i) =
             (if foldState (squares (ticks n st) ! i) + foldSpeed (squares st ! i) > 2 * pi then 0
              else foldState (squares (ticks n st) ! i) + foldSpeed (squares st ! i))"
proof -
  have sp: "foldSpeed (squares (ticks k st) ! i) = foldSpeed (squares st ! i)" for k
    using assms(1) ticks_static by blast
  have step: "foldState (squares (ticks (Suc k) st) ! i) =
             (if foldState (squares (ticks k st) ! i) + foldSpeed (squares st ! i) > 2 * pi then 0
              else foldState (squares (ticks k st) ! i) + foldSpeed (squares st ! i))" for k
    using assms(1) by (simp add: update_foldState sp)
  have inv: "0 \<le> foldState (squares (ticks k st) ! i)
             \<and> foldState (squares (ticks k st) ! i) \<le> 2 * pi" for k
  proof (induction k)
    case 0
    show ?case using assms(3,4) by simp
  next
    case (Suc k)
    then show ?case
      unfolding step using assms(2) by auto
  qed
  show ?thesis
    using inv [of n] sp [of n] step [of n] by simp
qed

theorem fold_phase_closed_range_witness:
  "0 < length (squares (init 800 600 rnd_zero fresh_engine))
   \<and> 0 \<le> foldSpeed (squares (init 800 600 rnd_zero fresh_engine) ! 0)
   \<and> 0 \<le> foldState (squares (init 800 600 rnd_zero fresh_engine) ! 0)
   \<and> foldState (squares (init 800 600 rnd_zero fresh_engine) ! 0) \<le> 2 * pi
   \<and> 0 \<le> foldState (squares (ticks 5 (init 800 600 rnd_zero fresh_engine)) ! 0)
   \<and> foldState (squares (ticks 5 (init 800 600 rnd_zero fresh_engine)) ! 0) \<le> 2 * pi"
proof -
  have len: "0 < length (squares (init 800 600 rnd_zero fresh_engine))"
    by (simp add: numSquares_def)
  have sq: "squares (init 800 600 rnd_zero fresh_engine) ! 0 = new_square rnd_zero 800 600 0"
    by (simp add: init_zero_nth numSquares_def)
  have h2: "0 \<le> foldSpeed (squares (init 800 600 rnd_zero fresh_engine) ! 0)"
    and h3: "0 \<le> foldState (squares (init 800 600 rnd_zero fresh_engine) ! 0)"
    and h4: "foldState (squares (init 800 600 rnd_zero fresh_engine) ! 0) \<le> 2 * pi"
    by (simp_all add: sq new_square_zero)
  show ?thesis
    using len h2 h3 h4 fold_phase_closed_range [OF len h2 h3 h4, of 5] by simp
qed

text \<open>
  C5 as stated excludes \<open>2\<pi>\<close>. Let every square start with fold phase \<open>2\<pi> - 6\<close> and fold
  speed 1/128, which \<open>createSquares\<close> produces from the random sequence \<open>rnd_fold\<close>
  (within \<open>[0, 1)\<close> by \<open>rnd_fold_range\<close>). After 768 ticks the phase is exactly \<open>2\<pi>\<close>,
  which the test \<open>foldState > 2 * Math.PI\<close> lets pass.
\<close>

theorem fold_phase_reaches_two_pi_counterexample:
  "\<not> foldState (squares (ticks 768 (init 800 600 rnd_fold fresh_engine)) ! 0) < 2 * pi"
proof -
  have sq: "squares (init 800 600 rnd_fold fresh_engine) ! 0 = new_square rnd_fold 800 600 0"
    by (simp add: init_constant [of rnd_fold 800 600 "new_square rnd_fold 800 600 0"]
        new_square_fold numSquares_def)
  have "foldState (squares (ticks 768 (init 800 600 rnd_fold fresh_engine)) ! 0)
          = foldState (squares (init 800 600 rnd_fold fresh_engine) ! 0)
            + real 768 * foldSpeed (squares (init 800 600 rnd_fold fresh_engine) ! 0)"
    by (rule ticks_foldState_linear) (simp_all add: sq new_square_fold numSquares_def)
  then have "foldState (squares (ticks 768 (init 800 600 rnd_fold fresh_engine)) ! 0) = 2 * pi"
    by (simp add: sq new_square_fold)
  then show ?thesis
    by simp
qed

subsection \<open>The repulsion offset\<close>

lemma mouse_interaction_baseX:
  "baseX (mouse_interaction mx my sq) =
     (let dx = mx - x_sq sq; dy = my - y_sq sq; dist = sqrt (dx * dx + dy * dy)
      in (if dist < 150 \<and> dist > 0 then baseX sq - (dx / dist) * ((150 - dist) / 150) * 0.5
          else baseX sq))"
  by (simp add: mouse_interaction_def Let_def)

lemma mouse_interaction_baseY:
  "baseY (mouse_interaction mx my sq) =
     (let dx = mx - x_sq sq; dy = my - y_sq sq; dist = sqrt (dx * dx + dy * dy)
      in (if dist < 150 \<and> dist > 0 then baseY sq - (dy / dist) * ((150 - dist) / 150) * 0.5
          else baseY sq))"
  by (simp add: mouse_interaction_def Let_def)

lemma unit_component:
  fixes dx dy :: real
  assumes "0 < sqrt (dx * dx + dy * dy)"
  shows "\<bar>dx / sqrt (dx * dx + dy * dy)\<bar> \<le> 1" and "\<bar>dy / sqrt (dx * dx + dy * dy)\<bar> \<le> 1"
proof -
  have "\<bar>dx\<bar> \<le> sqrt (dx\<^sup>2 + dy\<^sup>2)" "\<bar>dy\<bar> \<le> sqrt (dx\<^sup>2 + dy\<^sup>2)"
    by simp_all
  then have "\<bar>dx\<bar> \<le> sqrt (dx * dx + dy * dy)" "\<bar>dy\<bar> \<le> sqrt (dx * dx + dy * dy)"
    by (simp_all add: power2_eq_square)
  with assms show "\<bar>dx / sqrt (dx * dx + dy * dy)\<bar> \<le> 1" "\<bar>dy / sqrt (dx * dx + dy * dy)\<bar> \<le> 1"
    by simp_all
qed

lemma repulsion_small:
  fixes u d :: real
  assumes "\<bar>u\<bar> \<le> 1" and "0 < d" and "d < 150"
  shows "\<bar>u * ((150 - d) / 150) * 0.5\<bar> < 1 / 2"
proof -
  have f: "0 < (150 - d) / 150" "(150 - d) / 150 < 1"
    using assms(2,3) by simp_all
  have "\<bar>u * ((150 - d) / 150)\<bar> = \<bar>u\<bar> * ((150 - d) / 150)"
    using f(1) by (simp add: abs_mult)
  also have "\<dots> \<le> 1 * ((150 - d) / 150)"
    using assms(1) f(1) by (intro mult_right_mono) simp_all
  finally have "\<bar>u * ((150 - d) / 150)\<bar> < 1"
    using f(2) by simp
  then show ?thesis
    by (simp add: abs_mult)
qed

lemma unit_norm:
  fixes dx dy :: real
  assumes "0 < sqrt (dx * dx + dy * dy)"
  shows "(dx / sqrt (dx * dx + dy * dy)) * (dx / sqrt (dx * dx + dy * dy))
         + (dy / sqrt (dx * dx + dy * dy)) * (dy / sqrt (dx * dx + dy * dy)) = 1"
proof -
  have nn: "0 \<le> dx * dx + dy * dy"
    by simp
  have "sqrt (dx * dx + dy * dy) * sqrt (dx * dx + dy * dy) = dx * dx + dy * dy"
    using nn by simp
  moreover have "dx * dx + dy * dy \<noteq> 0"
    using assms by auto
  ultimately show ?thesis
    by (simp add: add_divide_distrib [symmetric])
qed

lemma mouse_interaction_near:
  assumes "d = sqrt ((mx - x_sq sq) * (mx - x_sq sq) + (my - y_sq sq) * (my - y_sq sq))"
    and "0 < d" and "d < 150"
  shows "baseX (mouse_interaction mx my sq) = baseX sq - ((mx - x_sq sq) / d) * ((150 - d) / 150) * 0.5"
    and "baseY (mouse_interaction mx my sq) = baseY sq - ((my - y_sq sq) / d) * ((150 - d) / 150) * 0.5"
  using assms by (simp_all add: mouse_interaction_def Let_def)

lemma mouse_interaction_far:
  assumes "d = sqrt ((mx - x_sq sq) * (mx - x_sq sq) + (my - y_sq sq) * (my - y_sq sq))"
    and "\<not> (d < 150 \<and> d > 0)"
  shows "mouse_interaction mx my sq = sq"
proof -
  have c: "\<not> (sqrt ((mx - x_sq sq) * (mx - x_sq sq) + (my - y_sq sq) * (my - y_sq sq)) < 150
              \<and> sqrt ((mx - x_sq sq) * (mx - x_sq sq) + (my - y_sq sq) * (my - y_sq sq)) > 0)"
    using assms by blast
  show ?thesis
    unfolding mouse_interaction_def Let_def by (simp only: c if_False)
qed

subsection \<open>Base position and the padded bounds\<close>

lemma wrap_in_bounds:
  assumes "- size_sq sq \<le> w + size_sq sq" and "- size_sq sq \<le> h + size_sq sq"
  shows "- size_sq sq \<le> baseX (wrap w h sq) \<and> baseX (wrap w h sq) \<le> w + size_sq sq
         \<and> - size_sq sq \<le> baseY (wrap w h sq) \<and> baseY (wrap w h sq) \<le> h + size_sq sq"
  using assms by (simp add: wrap_baseX wrap_baseY)

text \<open>The base position at the end of the callback: the drifted and wrapped base, minus
  the repulsion term when the pointer is within the radius. The distance is the one the
  callback computes, from the displayed position it has just set.\<close>

lemma update_square_near:
  assumes "d = sqrt ((mx - x_sq (update_square t mx my w h i sq)) * (mx - x_sq (update_square t mx my w h i sq))
                     + (my - y_sq (update_square t mx my w h i sq)) * (my - y_sq (update_square t mx my w h i sq)))"
    and "0 < d" and "d < 150"
  shows "baseX (update_square t mx my w h i sq)
           = baseX (wrap w h (drift t i sq))
             - ((mx - x_sq (update_square t mx my w h i sq)) / d) * ((150 - d) / 150) * 0.5"
    and "baseY (update_square t mx my w h i sq)
           = baseY (wrap w h (drift t i sq))
             - ((my - y_sq (update_square t mx my w h i sq)) / d) * ((150 - d) / 150) * 0.5"
proof -
  define S where "S = fold_animation (rotate (wrap w h (drift t i (organic t sq))))"
  have eq: "update_square t mx my w h i sq = mouse_interaction mx my S"
    by (simp only: update_square_def S_def)
  have xy: "x_sq (update_square t mx my w h i sq) = x_sq S" "y_sq (update_square t mx my w h i sq) = y_sq S"
    by (simp_all only: eq mouse_interaction_fields)
  have b: "baseX S = baseX (wrap w h (drift t i sq))" "baseY S = baseY (wrap w h (drift t i sq))"
    by (simp_all add: S_def wrap_baseX wrap_baseY)
  have d: "d = sqrt ((mx - x_sq S) * (mx - x_sq S) + (my - y_sq S) * (my - y_sq S))"
    using assms(1) by (simp only: xy)
  show "baseX (update_square t mx my w h i sq)
           = baseX (wrap w h (drift t i sq))
             - ((mx - x_sq (update_square t mx my w h i sq)) / d) * ((150 - d) / 150) * 0.5"
    using mouse_interaction_near(1) [OF d assms(2,3)] by (simp only: eq [symmetric] xy [symmetric] b)
  show "baseY (update_square t mx my w h i sq)
           = baseY (wrap w h (drift t i sq))
             - ((my - y_sq (update_square t mx my w h i sq)) / d) * ((150 - d) / 150) * 0.5"
    using mouse_interaction_near(2) [OF d assms(2,3)] by (simp only: eq [symmetric] xy [symmetric] b)
qed

lemma update_square_far:
  assumes "d = sqrt ((mx - x_sq (update_square t mx my w h i sq)) * (mx - x_sq (update_square t mx my w h i sq))
                     + (my - y_sq (update_square t mx my w h i sq)) * (my - y_sq (update_square t mx my w h i sq)))"
    and "\<not> (d < 150 \<and> d > 0)"
  shows "baseX (update_square t mx my w h i sq) = baseX (wrap w h (drift t i sq))"
    and "baseY (update_square t mx my w h i sq) = baseY (wrap w h (drift t i sq))"
proof -
  define S where "S = fold_animation (rotate (wrap w h (drift t i (organic t sq))))"
  have eq: "update_square t mx my w h i sq = mouse_interaction mx my S"
    by (simp only: update_square_def S_def)
  have xy: "x_sq (update_square t mx my w h i sq) = x_sq S" "y_sq (update_square t mx my w h i sq) = y_sq S"
    by (simp_all only: eq mouse_interaction_fields)
  have b: "baseX S = baseX (wrap w h (drift t i sq))" "baseY S = baseY (wrap w h (drift t i sq))"
    by (simp_all add: S_def wrap_baseX wrap_baseY)
  have d: "d = sqrt ((mx - x_sq S) * (mx - x_sq S) + (my - y_sq S) * (my - y_sq S))"
    using assms(1) by (simp only: xy)
  have "update_square t mx my w h i sq = S"
    using mouse_interaction_far [OF d assms(2)] by (simp only: eq)
  then show "baseX (update_square t mx my w h i sq) = baseX (wrap w h (drift t i sq))"
    and "baseY (update_square t mx my w h i sq) = baseY (wrap w h (drift t i sq))"
    by (simp_all only: b)
qed

lemma update_square_widened_bounds:
  assumes "0 \<le> size_sq sq" and "0 \<le> w" and "0 \<le> h"
  shows "- size_sq sq - 1 / 2 < baseX (update_square t mx my w h i sq)
         \<and> baseX (update_square t mx my w h i sq) < w + size_sq sq + 1 / 2
         \<and> - size_sq sq - 1 / 2 < baseY (update_square t mx my w h i sq)
         \<and> baseY (update_square t mx my w h i sq) < h + size_sq sq + 1 / 2"
proof -
  define dx where "dx = mx - x_sq (update_square t mx my w h i sq)"
  define dy where "dy = my - y_sq (update_square t mx my w h i sq)"
  define d where "d = sqrt (dx * dx + dy * dy)"
  have d': "d = sqrt ((mx - x_sq (update_square t mx my w h i sq)) * (mx - x_sq (update_square t mx my w h i sq))
                     + (my - y_sq (update_square t mx my w h i sq)) * (my - y_sq (update_square t mx my w h i sq)))"
    by (simp only: d_def dx_def dy_def)
  have wb: "- size_sq sq \<le> baseX (wrap w h (drift t i sq))"
    "baseX (wrap w h (drift t i sq)) \<le> w + size_sq sq"
    "- size_sq sq \<le> baseY (wrap w h (drift t i sq))"
    "baseY (wrap w h (drift t i sq)) \<le> h + size_sq sq"
    using wrap_in_bounds [of "drift t i sq" w h] assms by simp_all
  show ?thesis
  proof (cases "d < 150 \<and> d > 0")
    case True
    then have pos: "0 < sqrt (dx * dx + dy * dy)"
      by (simp only: d_def)
    have u: "\<bar>dx / d\<bar> \<le> 1" "\<bar>dy / d\<bar> \<le> 1"
      unfolding d_def by (rule unit_component [OF pos])+
    have tr: "0 < d" "d < 150"
      using True by simp_all
    have small: "\<bar>(dx / d) * ((150 - d) / 150) * 0.5\<bar> < 1 / 2"
      "\<bar>(dy / d) * ((150 - d) / 150) * 0.5\<bar> < 1 / 2"
      by (rule repulsion_small [OF u(1) tr], rule repulsion_small [OF u(2) tr])
    have "baseX (update_square t mx my w h i sq)
            = baseX (wrap w h (drift t i sq)) - (dx / d) * ((150 - d) / 150) * 0.5"
      "baseY (update_square t mx my w h i sq)
            = baseY (wrap w h (drift t i sq)) - (dy / d) * ((150 - d) / 150) * 0.5"
      using update_square_near [OF d'] True by (simp_all only: dx_def dy_def)
    then show ?thesis
      using wb small by (simp only: abs_less_iff) linarith
  next
    case False
    then have "baseX (update_square t mx my w h i sq) = baseX (wrap w h (drift t i sq))"
      "baseY (update_square t mx my w h i sq) = baseY (wrap w h (drift t i sq))"
      using update_square_far [OF d'] by blast+
    then show ?thesis
      using wb by simp
  qed
qed


lemma ticks_Suc_nth:
  "i < length (squares st) \<Longrightarrow>
   squares (ticks (Suc n) st) ! i =
     update_square (time st + n + 1) (mouseX st) (mouseY st) (width st) (height st) i
       (squares (ticks n st) ! i)"
  by (simp add: update_nth)

text \<open>
  C1 (amended). After every update tick, for a square of non-negative size on a surface
  of non-negative width and height, each base coordinate lies strictly within the
  padded bounds widened by 1/2: the wrap step puts the drifted base inside
  \<open>[-size, width+size] \<times> [-size, height+size]\<close>, and the repulsion term, which is applied
  after the wrap, moves each coordinate by less than 1/2. In a tick in which no
  repulsion applies (pointer distance 0 or at least 150) the base ends inside the padded
  bounds themselves. The size of a square never changes.
\<close>

theorem base_within_widened_bounds:
  assumes "i < length (squares st)" and "0 \<le> size_sq (squares st ! i)"
    and "0 \<le> width st" and "0 \<le> height st"
  shows "(let s = squares (ticks (Suc n) st) ! i;
              dx = mouseX st - x_sq s; dy = mouseY st - y_sq s;
              d = sqrt (dx * dx + dy * dy); sz = size_sq s
          in sz = size_sq (squares st ! i)
             \<and> - sz - 1 / 2 < baseX s \<and> baseX s < width st + sz + 1 / 2
             \<and> - sz - 1 / 2 < baseY s \<and> baseY s < height st + sz + 1 / 2
             \<and> (\<not> (d < 150 \<and> d > 0) \<longrightarrow>
                  - sz \<le> baseX s \<and> baseX s \<le> width st + sz
                  \<and> - sz \<le> baseY s \<and> baseY s \<le> height st + sz))"
proof -
  define p where "p = squares (ticks n st) ! i"
  define s where "s = update_square (time st + n + 1) (mouseX st) (mouseY st) (width st) (height st) i p"
  have s_eq: "squares (ticks (Suc n) st) ! i = s"
    using assms(1) unfolding s_def p_def by (rule ticks_Suc_nth)
  have szp: "size_sq p = size_sq (squares st ! i)"
    unfolding p_def using assms(1) ticks_static by blast
  have sz: "size_sq s = size_sq p"
    by (simp add: s_def)
  have nn: "0 \<le> size_sq p"
    using assms(2) szp by simp
  have wide: "- size_sq p - 1 / 2 < baseX s \<and> baseX s < width st + size_sq p + 1 / 2
              \<and> - size_sq p - 1 / 2 < baseY s \<and> baseY s < height st + size_sq p + 1 / 2"
    unfolding s_def by (rule update_square_widened_bounds [OF nn assms(3,4)])
  have exact: "- size_sq p \<le> baseX s \<and> baseX s \<le> width st + size_sq p
               \<and> - size_sq p \<le> baseY s \<and> baseY s \<le> height st + size_sq p"
    if far: "\<not> (sqrt ((mouseX st - x_sq s) * (mouseX st - x_sq s)
                      + (mouseY st - y_sq s) * (mouseY st - y_sq s)) < 150
                \<and> sqrt ((mouseX st - x_sq s) * (mouseX st - x_sq s)
                      + (mouseY st - y_sq s) * (mouseY st - y_sq s)) > 0)"
  proof -
    have "baseX s = baseX (wrap (width st) (height st) (drift (time st + n + 1) i p))"
      "baseY s = baseY (wrap (width st) (height st) (drift (time st + n + 1) i p))"
      using update_square_far [OF refl, of "mouseX st" "time st + n + 1" "mouseY st" "width st" "height st" i p]
        far unfolding s_def by blast+
    then show ?thesis
      using wrap_in_bounds [of "drift (time st + n + 1) i p" "width st" "height st"] nn assms(3,4)
      by simp
  qed
  show ?thesis
    unfolding s_eq Let_def using wide exact sz szp by (simp only:) blast
qed

lemma new_square_half:
  "new_square rnd_half w h i =
     \<lparr>x_sq = w / 2, y_sq = h / 2, size_sq = 50, rotation = pi, rotationSpeed = 0,
      color = Some ''#66d9ef'', opacity = 3 / 10, phaseX = pi, phaseY = pi,
      speedX = 11 / 20, speedY = 11 / 20, amplitudeX = 40, amplitudeY = 40,
      baseX = w / 2, baseY = h / 2, foldState = 1 / 2, foldSpeed = 1 / 100, layer = 1\<rparr>"
proof -
  have "\<lfloor>3 / 2 :: real\<rfloor> = 1" "\<lfloor>3 :: real\<rfloor> = 3"
    by linarith+
  then show ?thesis
    by (simp add: new_square_def rnd_half_def pick_color_def colorKeys_def colors_def)
qed

lemma init_half_nth:
  "i < numSquares \<Longrightarrow> squares (init w h rnd_half st) ! i = new_square rnd_half w h 0"
  by (simp add: init_constant [of rnd_half w h "new_square rnd_half w h 0"] new_square_half)

lemma far_from_origin:
  fixes x y :: real
  assumes "150 \<le> x"
  shows "\<not> (sqrt ((0 - x) * (0 - x) + (0 - y) * (0 - y)) < 150
            \<and> sqrt ((0 - x) * (0 - x) + (0 - y) * (0 - y)) > 0)"
proof -
  have "\<bar>x\<bar> \<le> sqrt (x\<^sup>2 + y\<^sup>2)"
    by simp
  then have le: "x \<le> sqrt (x * x + y * y)"
    by (simp add: power2_eq_square)
  have eq: "(0 - x) * (0 - x) + (0 - y) * (0 - y) = x * x + y * y"
    by simp
  show ?thesis
    unfolding eq using le assms by linarith
qed

lemma half_first_tick_x:
  "360 \<le> x_sq (squares (ticks (Suc 0) (init 800 600 rnd_half fresh_engine)) ! 0)"
proof -
  have "x_sq (squares (ticks (Suc 0) (init 800 600 rnd_half fresh_engine)) ! 0)
          = 400 + sin (11 / 20000 + pi) * 40"
    by (simp add: update_nth init_half_nth numSquares_def new_square_half del: sin_periodic_pi)
  moreover have "- 1 \<le> sin (11 / 20000 + pi :: real)"
    by (rule sin_ge_minus_one)
  ultimately show ?thesis
    by linarith
qed


theorem base_within_widened_bounds_witness:
  "0 < length (squares (init 800 600 rnd_half fresh_engine))
   \<and> 0 \<le> size_sq (squares (init 800 600 rnd_half fresh_engine) ! 0)
   \<and> (0::real) \<le> width (init 800 600 rnd_half fresh_engine)
   \<and> (0::real) \<le> height (init 800 600 rnd_half fresh_engine)
   \<and> \<not> (sqrt ((0 - x_sq (squares (ticks (Suc 0) (init 800 600 rnd_half fresh_engine)) ! 0))
               * (0 - x_sq (squares (ticks (Suc 0) (init 800 600 rnd_half fresh_engine)) ! 0))
             + (0 - y_sq (squares (ticks (Suc 0) (init 800 600 rnd_half fresh_engine)) ! 0))
               * (0 - y_sq (squares (ticks (Suc 0) (init 800 600 rnd_half fresh_engine)) ! 0))) < 150
        \<and> sqrt ((0 - x_sq (squares (ticks (Suc 0) (init 800 600 rnd_half fresh_engine)) ! 0))
               * (0 - x_sq (squares (ticks (Suc 0) (init 800 600 rnd_half fresh_engine)) ! 0))
             + (0 - y_sq (squares (ticks (Suc 0) (init 800 600 rnd_half fresh_engine)) ! 0))
               * (0 - y_sq (squares (ticks (Suc 0) (init 800 600 rnd_half fresh_engine)) ! 0))) > 0)
   \<and> - 50 \<le> baseX (squares (ticks (Suc 0) (init 800 600 rnd_half fresh_engine)) ! 0)
   \<and> baseX (squares (ticks (Suc 0) (init 800 600 rnd_half fresh_engine)) ! 0) \<le> 850
   \<and> - 50 \<le> baseY (squares (ticks (Suc 0) (init 800 600 rnd_half fresh_engine)) ! 0)
   \<and> baseY (squares (ticks (Suc 0) (init 800 600 rnd_half fresh_engine)) ! 0) \<le> 650"
proof -
  let ?E = "init 800 600 rnd_half fresh_engine"
  have len: "0 < length (squares ?E)"
    by (simp add: numSquares_def)
  have sq: "squares ?E ! 0 = new_square rnd_half 800 600 0"
    by (simp add: init_half_nth numSquares_def)
  have h2: "0 \<le> size_sq (squares ?E ! 0)"
    by (simp add: sq new_square_half)
  have h3: "0 \<le> width ?E" and h4: "0 \<le> height ?E"
    by simp_all
  have far: "\<not> (sqrt ((0 - x_sq (squares (ticks (Suc 0) ?E) ! 0)) * (0 - x_sq (squares (ticks (Suc 0) ?E) ! 0))
                    + (0 - y_sq (squares (ticks (Suc 0) ?E) ! 0)) * (0 - y_sq (squares (ticks (Suc 0) ?E) ! 0))) < 150
               \<and> sqrt ((0 - x_sq (squares (ticks (Suc 0) ?E) ! 0)) * (0 - x_sq (squares (ticks (Suc 0) ?E) ! 0))
                    + (0 - y_sq (squares (ticks (Suc 0) ?E) ! 0)) * (0 - y_sq (squares (ticks (Suc 0) ?E) ! 0))) > 0)"
    by (rule far_from_origin) (use half_first_tick_x in linarith)
  have m: "mouseX ?E = 0" "mouseY ?E = 0" "width ?E = 800" "height ?E = 600"
    by simp_all
  have sz: "size_sq (squares ?E ! 0) = 50"
    by (simp add: sq new_square_half)
  note T = base_within_widened_bounds [OF len h2 h3 h4, of 0, unfolded Let_def m]
  from T have e: "size_sq (squares (ticks (Suc 0) ?E) ! 0) = size_sq (squares ?E ! 0)"
    by blast
  from T far have "- size_sq (squares (ticks (Suc 0) ?E) ! 0) \<le> baseX (squares (ticks (Suc 0) ?E) ! 0)
        \<and> baseX (squares (ticks (Suc 0) ?E) ! 0) \<le> 800 + size_sq (squares (ticks (Suc 0) ?E) ! 0)
        \<and> - size_sq (squares (ticks (Suc 0) ?E) ! 0) \<le> baseY (squares (ticks (Suc 0) ?E) ! 0)
        \<and> baseY (squares (ticks (Suc 0) ?E) ! 0) \<le> 600 + size_sq (squares (ticks (Suc 0) ?E) ! 0)"
    by blast
  then have "- 50 \<le> baseX (squares (ticks (Suc 0) ?E) ! 0)
        \<and> baseX (squares (ticks (Suc 0) ?E) ! 0) \<le> 850
        \<and> - 50 \<le> baseY (squares (ticks (Suc 0) ?E) ! 0)
        \<and> baseY (squares (ticks (Suc 0) ?E) ! 0) \<le> 650"
    unfolding e sz by simp
  then show ?thesis
    using len h2 h3 h4 far by blast
qed

lemma small_angle: "0 \<le> sin (3 / 10000 :: real)" "sin (3 / 10000 :: real) \<le> 1"
  "0 < sin (3 / 10000 :: real)"
proof -
  have "(3 / 10000 :: real) < pi"
    using pi_ge_two by linarith
  then show "0 < sin (3 / 10000 :: real)"
    by (intro sin_gt_zero) simp_all
  then show "0 \<le> sin (3 / 10000 :: real)"
    by simp
  show "sin (3 / 10000 :: real) \<le> 1"
    by simp
qed

lemma edge_first_tick:
  "x_sq (update_square 1 0 300 800 600 0 edge_square) = - 20"
  "y_sq (update_square 1 0 300 800 600 0 edge_square) = 300"
  "baseX (wrap 800 600 (drift 1 0 edge_square)) = - 20 + sin (3 / 10000) * (1 / 10)"
proof -
  have a: "(1 / 2000 + (pi - 1 / 2000) :: real) = pi" "(1 / 2000 + (pi / 2 - 1 / 2000) :: real) = pi / 2"
    by simp_all
  show "x_sq (update_square 1 0 300 800 600 0 edge_square) = - 20"
    by (simp add: edge_square_def a)
  show "y_sq (update_square 1 0 300 800 600 0 edge_square) = 300"
    by (simp add: edge_square_def a)
  have b: "baseX (drift 1 0 edge_square) = - 20 + sin (3 / 10000) * (1 / 10)"
    by (simp add: edge_square_def)
  have sz: "size_sq (drift 1 0 edge_square) = 20"
    by (simp add: edge_square_def)
  have c: "\<not> - 20 + sin (3 / 10000 :: real) * (1 / 10) < - 20"
    "\<not> 800 + 20 < - 20 + sin (3 / 10000 :: real) * (1 / 10)"
    using small_angle(1,2) by linarith+
  show "baseX (wrap 800 600 (drift 1 0 edge_square)) = - 20 + sin (3 / 10000) * (1 / 10)"
    by (simp only: wrap_baseX sz c if_False b)
qed

text \<open>
  C1 as stated fails because the repulsion is applied after the wrap. In \<open>edge_engine\<close>
  the first square is inside the padded bounds, on the left edge; the pointer, 20 px to
  the right of its displayed position, pushes it left by 13/30 while the drift moves it
  right by at most 1/10, and the tick ends with the base left of \<open>-size\<close>.
\<close>

theorem base_leaves_bounds_counterexample:
  "- size_sq (squares edge_engine ! 0) \<le> baseX (squares edge_engine ! 0)
   \<and> baseX (squares edge_engine ! 0) \<le> width edge_engine + size_sq (squares edge_engine ! 0)
   \<and> - size_sq (squares edge_engine ! 0) \<le> baseY (squares edge_engine ! 0)
   \<and> baseY (squares edge_engine ! 0) \<le> height edge_engine + size_sq (squares edge_engine ! 0)
   \<and> baseX (squares (update edge_engine) ! 0) < - size_sq (squares (update edge_engine) ! 0)"
proof -
  have sq: "squares edge_engine ! 0 = edge_square"
    by (simp add: edge_engine_def numSquares_def)
  have up: "squares (update edge_engine) ! 0 = update_square 1 0 300 800 600 0 edge_square"
    using update_nth [of 0 edge_engine] by (simp add: edge_engine_def numSquares_def)
  have d: "(20::real) = sqrt ((0 - x_sq (update_square 1 0 300 800 600 0 edge_square))
                               * (0 - x_sq (update_square 1 0 300 800 600 0 edge_square))
                             + (300 - y_sq (update_square 1 0 300 800 600 0 edge_square))
                               * (300 - y_sq (update_square 1 0 300 800 600 0 edge_square)))"
  proof -
    have "sqrt 400 = (20::real)"
      by (rule real_sqrt_unique) simp_all
    then show ?thesis
      by (simp only: edge_first_tick(1,2)) simp
  qed
  have "baseX (update_square 1 0 300 800 600 0 edge_square)
          = - 20 + sin (3 / 10000) * (1 / 10) - 13 / 30"
    using update_square_near(1) [OF d] by (simp only: edge_first_tick) simp
  then have "baseX (squares (update edge_engine) ! 0) < - 20"
    using small_angle(2) unfolding up by linarith
  moreover have "size_sq (squares (update edge_engine) ! 0) = 20"
    by (simp add: up edge_square_def)
  moreover have "- size_sq (squares edge_engine ! 0) \<le> baseX (squares edge_engine ! 0)
      \<and> baseX (squares edge_engine ! 0) \<le> width edge_engine + size_sq (squares edge_engine ! 0)
      \<and> - size_sq (squares edge_engine ! 0) \<le> baseY (squares edge_engine ! 0)
      \<and> baseY (squares edge_engine ! 0) \<le> height edge_engine + size_sq (squares edge_engine ! 0)"
    unfolding sq by (simp add: edge_square_def edge_engine_def)
  ultimately show ?thesis
    by simp
qed

subsection \<open>Repulsion\<close>

lemma scaled_unit_length:
  fixes u v f :: real
  assumes "u * u + v * v = 1" and "0 < f"
  shows "sqrt ((- u * f * 0.5) * (- u * f * 0.5) + (- v * f * 0.5) * (- v * f * 0.5)) = f * 0.5"
proof -
  have "(- u * f * 0.5) * (- u * f * 0.5) + (- v * f * 0.5) * (- v * f * 0.5)
          = (u * u + v * v) * ((f * 0.5) * (f * 0.5))"
    by (simp add: algebra_simps)
  also have "\<dots> = (f * 0.5) * (f * 0.5)"
    by (simp only: assms(1) mult_1)
  finally have "sqrt ((- u * f * 0.5) * (- u * f * 0.5) + (- v * f * 0.5) * (- v * f * 0.5))
                  = sqrt ((f * 0.5) * (f * 0.5))"
    by (rule arg_cong)
  also have "\<dots> = \<bar>f * 0.5\<bar>"
    by (rule real_sqrt_abs2)
  also have "\<dots> = f * 0.5"
    using assms(2) by (simp add: abs_mult)
  finally show ?thesis .
qed

lemma scaled_unit_away:
  fixes u v f dx dy d :: real
  assumes "u * dx + v * dy = d" and "0 < d" and "0 < f"
  shows "(- u * f * 0.5) * dx + (- v * f * 0.5) * dy < 0"
proof -
  have "(- u * f * 0.5) * dx + (- v * f * 0.5) * dy = - ((u * dx + v * dy) * (f * 0.5))"
    by (simp add: algebra_simps)
  also have "\<dots> = - (d * (f * 0.5))"
    by (simp only: assms(1))
  also have "\<dots> < 0"
    using assms(2,3) by simp
  finally show ?thesis .
qed

lemma repulsion_vector:
  fixes dx dy d :: real
  assumes "d = sqrt (dx * dx + dy * dy)" and "0 < d" and "d < 150"
  shows "sqrt ((- (dx / d) * ((150 - d) / 150) * 0.5) * (- (dx / d) * ((150 - d) / 150) * 0.5)
               + (- (dy / d) * ((150 - d) / 150) * 0.5) * (- (dy / d) * ((150 - d) / 150) * 0.5))
           = (150 - d) / 150 * 0.5"
    and "(- (dx / d) * ((150 - d) / 150) * 0.5) * dx + (- (dy / d) * ((150 - d) / 150) * 0.5) * dy < 0"
proof -
  have fpos: "0 < (150 - d) / 150"
    using assms(3) by simp
  have pos: "0 < sqrt (dx * dx + dy * dy)"
    using assms(1,2) by simp
  have unit: "(dx / d) * (dx / d) + (dy / d) * (dy / d) = 1"
    unfolding assms(1) by (rule unit_norm [OF pos])
  have dd: "dx * dx + dy * dy = d * d"
    unfolding assms(1) by simp
  have "(dx / d) * dx + (dy / d) * dy = (dx * dx + dy * dy) / d"
    by (simp add: add_divide_distrib)
  also have "\<dots> = d"
    using assms(2) by (simp add: dd)
  finally have along: "(dx / d) * dx + (dy / d) * dy = d" .
  show "sqrt ((- (dx / d) * ((150 - d) / 150) * 0.5) * (- (dx / d) * ((150 - d) / 150) * 0.5)
               + (- (dy / d) * ((150 - d) / 150) * 0.5) * (- (dy / d) * ((150 - d) / 150) * 0.5))
           = (150 - d) / 150 * 0.5"
    by (rule scaled_unit_length [OF unit fpos])
  show "(- (dx / d) * ((150 - d) / 150) * 0.5) * dx + (- (dy / d) * ((150 - d) / 150) * 0.5) * dy < 0"
    by (rule scaled_unit_away [OF along assms(2) fpos])
qed

text \<open>The tick of a square within reach of the pointer, on the engine: \<open>d\<close> is the
  distance the callback computes for the square at index \<open>i\<close>.\<close>

lemma update_near:
  assumes "i < length (squares st)"
    and "d = sqrt ((mouseX st - x_sq (squares (update st) ! i)) * (mouseX st - x_sq (squares (update st) ! i))
                     + (mouseY st - y_sq (squares (update st) ! i)) * (mouseY st - y_sq (squares (update st) ! i)))"
    and "0 < d" and "d < 150"
  shows "baseX (squares (update st) ! i) - baseX (wrap (width st) (height st) (drift (time st + 1) i (squares st ! i)))
           = - ((mouseX st - x_sq (squares (update st) ! i)) / d) * ((150 - d) / 150) * 0.5"
    and "baseY (squares (update st) ! i) - baseY (wrap (width st) (height st) (drift (time st + 1) i (squares st ! i)))
           = - ((mouseY st - y_sq (squares (update st) ! i)) / d) * ((150 - d) / 150) * 0.5"
    and "sqrt ((baseX (squares (update st) ! i) - baseX (wrap (width st) (height st) (drift (time st + 1) i (squares st ! i))))
               * (baseX (squares (update st) ! i) - baseX (wrap (width st) (height st) (drift (time st + 1) i (squares st ! i))))
             + (baseY (squares (update st) ! i) - baseY (wrap (width st) (height st) (drift (time st + 1) i (squares st ! i))))
               * (baseY (squares (update st) ! i) - baseY (wrap (width st) (height st) (drift (time st + 1) i (squares st ! i)))))
           = (150 - d) / 150 * 0.5"
    and "(baseX (squares (update st) ! i) - baseX (wrap (width st) (height st) (drift (time st + 1) i (squares st ! i)))) * (mouseX st - x_sq (squares (update st) ! i))
         + (baseY (squares (update st) ! i) - baseY (wrap (width st) (height st) (drift (time st + 1) i (squares st ! i)))) * (mouseY st - y_sq (squares (update st) ! i)) < 0"
proof -
  define s where "s = update_square (time st + 1) (mouseX st) (mouseY st) (width st) (height st) i
                        (squares st ! i)"
  define b where "b = wrap (width st) (height st) (drift (time st + 1) i (squares st ! i))"
  define dx where "dx = mouseX st - x_sq s"
  define dy where "dy = mouseY st - y_sq s"
  have s_eq: "squares (update st) ! i = s"
    using assms(1) unfolding s_def by (rule update_nth)
  have d': "d = sqrt ((mouseX st - x_sq s) * (mouseX st - x_sq s)
                      + (mouseY st - y_sq s) * (mouseY st - y_sq s))"
    using assms(2) by (simp only: s_eq)
  have d'': "d = sqrt (dx * dx + dy * dy)"
    using d' by (simp only: dx_def dy_def)
  note R = update_square_near [OF d' [unfolded s_def] assms(3,4), folded s_def b_def dx_def dy_def]
  have "baseX s = baseX b - (dx / d) * ((150 - d) / 150) * 0.5"
    "baseY s = baseY b - (dy / d) * ((150 - d) / 150) * 0.5"
    by (rule R(1), rule R(2))
  then have o: "baseX s - baseX b = - (dx / d) * ((150 - d) / 150) * 0.5"
    "baseY s - baseY b = - (dy / d) * ((150 - d) / 150) * 0.5"
    by simp_all
  note V = repulsion_vector [OF d'' assms(3,4), folded o]
  show "baseX (squares (update st) ! i) - baseX (wrap (width st) (height st) (drift (time st + 1) i (squares st ! i)))
           = - ((mouseX st - x_sq (squares (update st) ! i)) / d) * ((150 - d) / 150) * 0.5"
    unfolding s_eq b_def [symmetric] dx_def [symmetric] by (rule o(1))
  show "baseY (squares (update st) ! i) - baseY (wrap (width st) (height st) (drift (time st + 1) i (squares st ! i)))
           = - ((mouseY st - y_sq (squares (update st) ! i)) / d) * ((150 - d) / 150) * 0.5"
    unfolding s_eq b_def [symmetric] dy_def [symmetric] by (rule o(2))
  show "sqrt ((baseX (squares (update st) ! i) - baseX (wrap (width st) (height st) (drift (time st + 1) i (squares st ! i))))
               * (baseX (squares (update st) ! i) - baseX (wrap (width st) (height st) (drift (time st + 1) i (squares st ! i))))
             + (baseY (squares (update st) ! i) - baseY (wrap (width st) (height st) (drift (time st + 1) i (squares st ! i))))
               * (baseY (squares (update st) ! i) - baseY (wrap (width st) (height st) (drift (time st + 1) i (squares st ! i)))))
           = (150 - d) / 150 * 0.5"
    unfolding s_eq b_def [symmetric] by (rule V(1))
  show "(baseX (squares (update st) ! i) - baseX (wrap (width st) (height st) (drift (time st + 1) i (squares st ! i)))) * (mouseX st - x_sq (squares (update st) ! i))
         + (baseY (squares (update st) ! i) - baseY (wrap (width st) (height st) (drift (time st + 1) i (squares st ! i)))) * (mouseY st - y_sq (squares (update st) ! i)) < 0"
    unfolding s_eq b_def [symmetric] dx_def [symmetric] dy_def [symmetric] by (rule V(2))
qed

text \<open>
  C3 (amended). In an update tick, let \<open>b\<close> be the base position of a square after the drift and
  the wrap of that tick, and \<open>d\<close> the distance from its displayed position to the
  pointer. If \<open>0 < d < 150\<close>, the tick ends with the base at \<open>b\<close> plus an offset
  \<open>-(dx/d, dy/d) * (150-d)/150 * 0.5\<close>: its length is \<open>(150-d)/150 * 0.5\<close> and it points
  away from the pointer (negative scalar product with the vector to the pointer). If
  \<open>d = 0\<close> or \<open>d \<ge> 150\<close>, the tick ends with the base at \<open>b\<close>: no repulsion term. And \<open>b\<close>
  is the old base plus the drift term in each coordinate that the wrap leaves alone.
\<close>

theorem repulsion_term:
  assumes "i < length (squares st)"
  shows "(let sq = squares st ! i; t = time st + 1; s = squares (update st) ! i;
              b = wrap (width st) (height st) (drift t i sq);
              dx = mouseX st - x_sq s; dy = mouseY st - y_sq s;
              d = sqrt (dx * dx + dy * dy);
              ox = baseX s - baseX b; oy = baseY s - baseY b
          in (0 < d \<and> d < 150 \<longrightarrow>
                ox = - (dx / d) * ((150 - d) / 150) * 0.5
                \<and> oy = - (dy / d) * ((150 - d) / 150) * 0.5
                \<and> sqrt (ox * ox + oy * oy) = (150 - d) / 150 * 0.5
                \<and> ox * dx + oy * dy < 0)
             \<and> (d = 0 \<or> 150 \<le> d \<longrightarrow> ox = 0 \<and> oy = 0)
             \<and> (- size_sq sq \<le> baseX sq + sin (real t * 0.0003 + real i) * 0.1
                 \<and> baseX sq + sin (real t * 0.0003 + real i) * 0.1 \<le> width st + size_sq sq \<longrightarrow>
                   baseX b = baseX sq + sin (real t * 0.0003 + real i) * 0.1)
             \<and> (- size_sq sq \<le> baseY sq + cos (real t * 0.0003 + real i) * 0.1
                 \<and> baseY sq + cos (real t * 0.0003 + real i) * 0.1 \<le> height st + size_sq sq \<longrightarrow>
                   baseY b = baseY sq + cos (real t * 0.0003 + real i) * 0.1))"
proof -
  define sq where "sq = squares st ! i"
  define t where "t = time st + 1"
  define s where "s = squares (update st) ! i"
  define b where "b = wrap (width st) (height st) (drift t i sq)"
  define dx where "dx = mouseX st - x_sq s"
  define dy where "dy = mouseY st - y_sq s"
  define d where "d = sqrt (dx * dx + dy * dy)"
  have s_eq: "s = update_square t (mouseX st) (mouseY st) (width st) (height st) i sq"
    using assms unfolding s_def sq_def t_def by (rule update_nth)
  have d': "d = sqrt ((mouseX st - x_sq s) * (mouseX st - x_sq s)
                      + (mouseY st - y_sq s) * (mouseY st - y_sq s))"
    by (simp only: d_def dx_def dy_def)
  have near: "baseX s - baseX b = - (dx / d) * ((150 - d) / 150) * 0.5
              \<and> baseY s - baseY b = - (dy / d) * ((150 - d) / 150) * 0.5
              \<and> sqrt ((baseX s - baseX b) * (baseX s - baseX b)
                       + (baseY s - baseY b) * (baseY s - baseY b)) = (150 - d) / 150 * 0.5
              \<and> (baseX s - baseX b) * dx + (baseY s - baseY b) * dy < 0"
    if "0 < d" "d < 150"
    using update_near [OF assms d' [unfolded s_def] that,
        folded s_def sq_def t_def, folded b_def dx_def dy_def]
    by blast
  have far: "baseX s - baseX b = 0 \<and> baseY s - baseY b = 0" if "d = 0 \<or> 150 \<le> d"
  proof -
    have nf: "\<not> (d < 150 \<and> d > 0)"
      using that by auto
    note R = update_square_far [OF d' [unfolded s_eq] nf, folded s_eq b_def]
    have "baseX s = baseX b" "baseY s = baseY b"
      by (rule R(1), rule R(2))
    then show ?thesis
      by simp
  qed
  have nowrap: "baseX b = baseX sq + sin (real t * 0.0003 + real i) * 0.1"
    if "- size_sq sq \<le> baseX sq + sin (real t * 0.0003 + real i) * 0.1
        \<and> baseX sq + sin (real t * 0.0003 + real i) * 0.1 \<le> width st + size_sq sq"
    using that by (simp add: b_def wrap_baseX)
  have nowrapY: "baseY b = baseY sq + cos (real t * 0.0003 + real i) * 0.1"
    if "- size_sq sq \<le> baseY sq + cos (real t * 0.0003 + real i) * 0.1
        \<and> baseY sq + cos (real t * 0.0003 + real i) * 0.1 \<le> height st + size_sq sq"
    using that by (simp add: b_def wrap_baseY)
  show ?thesis
    unfolding Let_def sq_def [symmetric] t_def [symmetric] s_def [symmetric] b_def [symmetric]
      dx_def [symmetric] dy_def [symmetric] d_def [symmetric]
    using near far nowrap nowrapY by blast
qed

subsection \<open>The first tick of the two sample instances\<close>

lemma organic_params [simp]:
  "speedX (organic t sq) = speedX sq" "speedY (organic t sq) = speedY sq"
  "phaseX (organic t sq) = phaseX sq" "phaseY (organic t sq) = phaseY sq"
  "amplitudeX (organic t sq) = amplitudeX sq" "amplitudeY (organic t sq) = amplitudeY sq"
  by (simp_all add: organic_def Let_def)

lemma drift_params [simp]:
  "speedX (drift t i sq) = speedX sq" "speedY (drift t i sq) = speedY sq"
  "phaseX (drift t i sq) = phaseX sq" "phaseY (drift t i sq) = phaseY sq"
  "amplitudeX (drift t i sq) = amplitudeX sq" "amplitudeY (drift t i sq) = amplitudeY sq"
  by (simp_all add: drift_def Let_def)

lemma wrap_params [simp]:
  "speedX (wrap w h sq) = speedX sq" "speedY (wrap w h sq) = speedY sq"
  "phaseX (wrap w h sq) = phaseX sq" "phaseY (wrap w h sq) = phaseY sq"
  "amplitudeX (wrap w h sq) = amplitudeX sq" "amplitudeY (wrap w h sq) = amplitudeY sq"
  by (simp_all add: wrap_def Let_def)

lemma rotate_params [simp]:
  "speedX (rotate sq) = speedX sq" "speedY (rotate sq) = speedY sq"
  "phaseX (rotate sq) = phaseX sq" "phaseY (rotate sq) = phaseY sq"
  "amplitudeX (rotate sq) = amplitudeX sq" "amplitudeY (rotate sq) = amplitudeY sq"
  by (simp_all add: rotate_def)

lemma fold_animation_params [simp]:
  "speedX (fold_animation sq) = speedX sq" "speedY (fold_animation sq) = speedY sq"
  "phaseX (fold_animation sq) = phaseX sq" "phaseY (fold_animation sq) = phaseY sq"
  "amplitudeX (fold_animation sq) = amplitudeX sq" "amplitudeY (fold_animation sq) = amplitudeY sq"
  by (simp_all add: fold_animation_def Let_def)

lemma mouse_interaction_params [simp]:
  "speedX (mouse_interaction mx my sq) = speedX sq" "speedY (mouse_interaction mx my sq) = speedY sq"
  "phaseX (mouse_interaction mx my sq) = phaseX sq" "phaseY (mouse_interaction mx my sq) = phaseY sq"
  "amplitudeX (mouse_interaction mx my sq) = amplitudeX sq"
  "amplitudeY (mouse_interaction mx my sq) = amplitudeY sq"
  by (simp_all add: mouse_interaction_def Let_def)

lemma update_square_params [simp]:
  "speedX (update_square t mx my w h i sq) = speedX sq"
  "speedY (update_square t mx my w h i sq) = speedY sq"
  "phaseX (update_square t mx my w h i sq) = phaseX sq"
  "phaseY (update_square t mx my w h i sq) = phaseY sq"
  "amplitudeX (update_square t mx my w h i sq) = amplitudeX sq"
  "amplitudeY (update_square t mx my w h i sq) = amplitudeY sq"
  by (simp_all add: update_square_def)

lemma circle_radius:
  fixes r a :: real
  assumes "0 \<le> r"
  shows "sqrt ((sin a * r) * (sin a * r) + (cos a * r) * (cos a * r)) = r"
proof -
  have one: "sin a * sin a + cos a * cos a = 1"
    by (simp add: power2_eq_square [symmetric])
  have g: "(s * r) * (s * r) + (c * r) * (c * r) = (r * r) * (s * s + c * c)" for s c :: real
    by (simp add: algebra_simps)
  have "(sin a * r) * (sin a * r) + (cos a * r) * (cos a * r)
          = (r * r) * (sin a * sin a + cos a * cos a)"
    by (rule g)
  also have "\<dots> = r * r"
    by (simp only: one mult_1_right)
  finally have "sqrt ((sin a * r) * (sin a * r) + (cos a * r) * (cos a * r)) = sqrt (r * r)"
    by (rule arg_cong)
  then show ?thesis
    using assms by simp
qed

lemma zero_engine_fields:
  "length (squares zero_engine) = 40" "time zero_engine = 0"
  "mouseX zero_engine = 0" "mouseY zero_engine = 0"
  "width zero_engine = 800" "height zero_engine = 600"
  "squares zero_engine ! 0 = new_square rnd_zero 800 600 0"
  by (simp_all add: zero_engine_def init_zero_nth numSquares_def)

lemma half_engine_fields:
  "length (squares half_engine) = 40" "time half_engine = 0"
  "mouseX half_engine = 0" "mouseY half_engine = 0"
  "width half_engine = 800" "height half_engine = 600"
  "squares half_engine ! 0 = new_square rnd_half 800 600 0"
  by (simp_all add: half_engine_def init_half_nth numSquares_def)

lemma zero_first_tick:
  "squares (update zero_engine) ! 0 = update_square 1 0 0 800 600 0 (new_square rnd_zero 800 600 0)"
  "x_sq (squares (update zero_engine) ! 0) = sin (3 / 10000) * 20"
  "y_sq (squares (update zero_engine) ! 0) = cos (3 / 10000) * 20"
proof -
  show u: "squares (update zero_engine) ! 0
             = update_square 1 0 0 800 600 0 (new_square rnd_zero 800 600 0)"
    using update_nth [of 0 zero_engine] by (simp add: zero_engine_fields)
  show "x_sq (squares (update zero_engine) ! 0) = sin (3 / 10000) * 20"
    "y_sq (squares (update zero_engine) ! 0) = cos (3 / 10000) * 20"
    unfolding u by (simp_all add: new_square_zero)
qed

lemma zero_first_tick_dist:
  "sqrt ((0 - x_sq (squares (update zero_engine) ! 0)) * (0 - x_sq (squares (update zero_engine) ! 0))
         + (0 - y_sq (squares (update zero_engine) ! 0)) * (0 - y_sq (squares (update zero_engine) ! 0)))
     = 20"
  "sqrt (x_sq (squares (update zero_engine) ! 0) * x_sq (squares (update zero_engine) ! 0)
         + y_sq (squares (update zero_engine) ! 0) * y_sq (squares (update zero_engine) ! 0))
     = 20"
proof -
  have r: "sqrt ((sin (3 / 10000) * 20) * (sin (3 / 10000) * 20)
                 + (cos (3 / 10000) * 20) * (cos (3 / 10000) * 20)) = (20::real)"
    by (rule circle_radius) simp
  show "sqrt (x_sq (squares (update zero_engine) ! 0) * x_sq (squares (update zero_engine) ! 0)
         + y_sq (squares (update zero_engine) ! 0) * y_sq (squares (update zero_engine) ! 0))
     = 20"
    by (simp only: zero_first_tick(2,3) r)
  have "(0 - x) * (0 - x) + (0 - y) * (0 - y) = x * x + y * y" for x y :: real
    by simp
  then show "sqrt ((0 - x_sq (squares (update zero_engine) ! 0)) * (0 - x_sq (squares (update zero_engine) ! 0))
         + (0 - y_sq (squares (update zero_engine) ! 0)) * (0 - y_sq (squares (update zero_engine) ! 0)))
     = 20"
    by (simp only: zero_first_tick(2,3) r)
qed

lemma small_angle_cos: "0 \<le> cos (3 / 10000 :: real)"
proof -
  have "(3 / 10000 :: real) \<le> pi / 2"
    using pi_ge_two by linarith
  then show ?thesis
    by (intro cos_ge_zero) simp_all
qed

lemma zero_first_tick_wrapped:
  "baseX (wrap 800 600 (drift 1 0 (new_square rnd_zero 800 600 0))) = sin (3 / 10000) * (1 / 10)"
  "baseY (wrap 800 600 (drift 1 0 (new_square rnd_zero 800 600 0))) = cos (3 / 10000) * (1 / 10)"
proof -
  have b: "baseX (drift 1 0 (new_square rnd_zero 800 600 0)) = sin (3 / 10000) * (1 / 10)"
    "baseY (drift 1 0 (new_square rnd_zero 800 600 0)) = cos (3 / 10000) * (1 / 10)"
    "size_sq (drift 1 0 (new_square rnd_zero 800 600 0)) = 20"
    by (simp_all add: new_square_zero)
  have c: "\<not> sin (3 / 10000 :: real) * (1 / 10) < - 20"
    "\<not> 800 + 20 < sin (3 / 10000 :: real) * (1 / 10)"
    using small_angle(1,2) by linarith+
  have c': "\<not> cos (3 / 10000 :: real) * (1 / 10) < - 20"
    "\<not> 600 + 20 < cos (3 / 10000 :: real) * (1 / 10)"
    using small_angle_cos cos_le_one [of "3 / 10000 :: real"] by linarith+
  show "baseX (wrap 800 600 (drift 1 0 (new_square rnd_zero 800 600 0))) = sin (3 / 10000) * (1 / 10)"
    by (simp only: wrap_baseX b c if_False)
  show "baseY (wrap 800 600 (drift 1 0 (new_square rnd_zero 800 600 0))) = cos (3 / 10000) * (1 / 10)"
    by (simp only: wrap_baseY b c' if_False)
qed

lemma zero_first_tick_base:
  "baseX (squares (update zero_engine) ! 0) = sin (3 / 10000) * (8 / 15)"
proof -
  note d = zero_first_tick_dist(1) [symmetric, unfolded zero_first_tick(1)]
  have "baseX (update_square 1 0 0 800 600 0 (new_square rnd_zero 800 600 0))
          = sin (3 / 10000) * (1 / 10)
            - ((0 - x_sq (update_square 1 0 0 800 600 0 (new_square rnd_zero 800 600 0))) / 20)
              * ((150 - 20) / 150) * 0.5"
    using update_square_near(1) [OF d] by (simp only: zero_first_tick_wrapped)
  also have "x_sq (update_square 1 0 0 800 600 0 (new_square rnd_zero 800 600 0)) = sin (3 / 10000) * 20"
    using zero_first_tick(2) by (simp only: zero_first_tick(1))
  finally show ?thesis
    by (simp add: zero_first_tick(1))
qed


lemma half_first_tick_far:
  "150 \<le> sqrt ((mouseX half_engine - x_sq (squares (update half_engine) ! 0)) * (mouseX half_engine - x_sq (squares (update half_engine) ! 0))
          + (mouseY half_engine - y_sq (squares (update half_engine) ! 0)) * (mouseY half_engine - y_sq (squares (update half_engine) ! 0)))"
proof -
  have u: "squares (update half_engine) ! 0
             = update_square 1 0 0 800 600 0 (new_square rnd_half 800 600 0)"
    using update_nth [of 0 half_engine] by (simp add: half_engine_fields)
  have "x_sq (squares (update half_engine) ! 0) = 400 + sin (11 / 20000 + pi) * 40"
    unfolding u by (simp add: new_square_half del: sin_periodic_pi)
  moreover have "- 1 \<le> sin (11 / 20000 + pi :: real)"
    by (rule sin_ge_minus_one)
  ultimately have x: "360 \<le> x_sq (squares (update half_engine) ! 0)"
    by linarith
  have "\<bar>dx\<bar> \<le> sqrt (dx * dx + dy * dy)" for dx dy :: real
    using real_sqrt_ge_abs1 [of dx dy] by (simp add: power2_eq_square)
  from this [of "mouseX half_engine - x_sq (squares (update half_engine) ! 0)"
      "mouseY half_engine - y_sq (squares (update half_engine) ! 0)"] x half_engine_fields(3)
  show ?thesis
    by linarith
qed

theorem repulsion_term_witness:
  "0 < length (squares zero_engine) \<and> 0 < length (squares half_engine)
   \<and> 0 < sqrt ((mouseX zero_engine - x_sq (squares (update zero_engine) ! 0)) * (mouseX zero_engine - x_sq (squares (update zero_engine) ! 0))
          + (mouseY zero_engine - y_sq (squares (update zero_engine) ! 0)) * (mouseY zero_engine - y_sq (squares (update zero_engine) ! 0)))
   \<and> sqrt ((mouseX zero_engine - x_sq (squares (update zero_engine) ! 0)) * (mouseX zero_engine - x_sq (squares (update zero_engine) ! 0))
          + (mouseY zero_engine - y_sq (squares (update zero_engine) ! 0)) * (mouseY zero_engine - y_sq (squares (update zero_engine) ! 0))) < 150
   \<and> sqrt ((baseX (squares (update zero_engine) ! 0) - baseX (wrap (width zero_engine) (height zero_engine) (drift (time zero_engine + 1) 0 (squares zero_engine ! 0)))) * (baseX (squares (update zero_engine) ! 0) - baseX (wrap (width zero_engine) (height zero_engine) (drift (time zero_engine + 1) 0 (squares zero_engine ! 0))))
          + (baseY (squares (update zero_engine) ! 0) - baseY (wrap (width zero_engine) (height zero_engine) (drift (time zero_engine + 1) 0 (squares zero_engine ! 0)))) * (baseY (squares (update zero_engine) ! 0) - baseY (wrap (width zero_engine) (height zero_engine) (drift (time zero_engine + 1) 0 (squares zero_engine ! 0)))))
       = (150 - sqrt ((mouseX zero_engine - x_sq (squares (update zero_engine) ! 0)) * (mouseX zero_engine - x_sq (squares (update zero_engine) ! 0))
          + (mouseY zero_engine - y_sq (squares (update zero_engine) ! 0)) * (mouseY zero_engine - y_sq (squares (update zero_engine) ! 0)))) / 150 * 0.5
   \<and> 150 \<le> sqrt ((mouseX half_engine - x_sq (squares (update half_engine) ! 0)) * (mouseX half_engine - x_sq (squares (update half_engine) ! 0))
          + (mouseY half_engine - y_sq (squares (update half_engine) ! 0)) * (mouseY half_engine - y_sq (squares (update half_engine) ! 0)))
   \<and> (baseX (squares (update half_engine) ! 0) - baseX (wrap (width half_engine) (height half_engine) (drift (time half_engine + 1) 0 (squares half_engine ! 0)))) = 0
   \<and> (baseY (squares (update half_engine) ! 0) - baseY (wrap (width half_engine) (height half_engine) (drift (time half_engine + 1) 0 (squares half_engine ! 0)))) = 0
   \<and> - size_sq (squares half_engine ! 0) \<le> baseX (squares half_engine ! 0) + sin (real (time half_engine + 1) * 0.0003 + real 0) * 0.1
   \<and> baseX (squares half_engine ! 0) + sin (real (time half_engine + 1) * 0.0003 + real 0) * 0.1 \<le> width half_engine + size_sq (squares half_engine ! 0)
   \<and> baseX (wrap (width half_engine) (height half_engine) (drift (time half_engine + 1) 0 (squares half_engine ! 0))) = baseX (squares half_engine ! 0) + sin (real (time half_engine + 1) * 0.0003 + real 0) * 0.1
   \<and> - size_sq (squares half_engine ! 0) \<le> baseY (squares half_engine ! 0) + cos (real (time half_engine + 1) * 0.0003 + real 0) * 0.1
   \<and> baseY (squares half_engine ! 0) + cos (real (time half_engine + 1) * 0.0003 + real 0) * 0.1 \<le> height half_engine + size_sq (squares half_engine ! 0)
   \<and> baseY (wrap (width half_engine) (height half_engine) (drift (time half_engine + 1) 0 (squares half_engine ! 0))) = baseY (squares half_engine ! 0) + cos (real (time half_engine + 1) * 0.0003 + real 0) * 0.1"
proof -
  have lz: "0 < length (squares zero_engine)" and lh: "0 < length (squares half_engine)"
    by (simp_all add: zero_engine_fields half_engine_fields)
  have near: "0 < sqrt ((mouseX zero_engine - x_sq (squares (update zero_engine) ! 0)) * (mouseX zero_engine - x_sq (squares (update zero_engine) ! 0))
          + (mouseY zero_engine - y_sq (squares (update zero_engine) ! 0)) * (mouseY zero_engine - y_sq (squares (update zero_engine) ! 0)))
   \<and> sqrt ((mouseX zero_engine - x_sq (squares (update zero_engine) ! 0)) * (mouseX zero_engine - x_sq (squares (update zero_engine) ! 0))
          + (mouseY zero_engine - y_sq (squares (update zero_engine) ! 0)) * (mouseY zero_engine - y_sq (squares (update zero_engine) ! 0))) < 150"
    by (simp only: zero_engine_fields(3,4) zero_first_tick_dist(1)) simp
  have e: "baseX (squares half_engine ! 0) = 400" "baseY (squares half_engine ! 0) = 300"
    "size_sq (squares half_engine ! 0) = 50" "width half_engine = 800" "height half_engine = 600"
    by (simp_all add: half_engine_fields new_square_half)
  have a: "real (time half_engine + 1) * 0.0003 + real 0 = 3 / 10000"
    by (simp add: half_engine_fields)
  have far: "150 \<le> sqrt ((mouseX half_engine - x_sq (squares (update half_engine) ! 0)) * (mouseX half_engine - x_sq (squares (update half_engine) ! 0))
          + (mouseY half_engine - y_sq (squares (update half_engine) ! 0)) * (mouseY half_engine - y_sq (squares (update half_engine) ! 0)))"
    by (rule half_first_tick_far)
  have nwx: "- size_sq (squares half_engine ! 0) \<le> baseX (squares half_engine ! 0) + sin (real (time half_engine + 1) * 0.0003 + real 0) * 0.1
   \<and> baseX (squares half_engine ! 0) + sin (real (time half_engine + 1) * 0.0003 + real 0) * 0.1 \<le> width half_engine + size_sq (squares half_engine ! 0)"
    by (simp only: e a) (use small_angle(1) sin_le_one [of "3 / 10000 :: real"] in linarith)
  have nwy: "- size_sq (squares half_engine ! 0) \<le> baseY (squares half_engine ! 0) + cos (real (time half_engine + 1) * 0.0003 + real 0) * 0.1
   \<and> baseY (squares half_engine ! 0) + cos (real (time half_engine + 1) * 0.0003 + real 0) * 0.1 \<le> height half_engine + size_sq (squares half_engine ! 0)"
    by (simp only: e a) (use small_angle_cos cos_le_one [of "3 / 10000 :: real"] in linarith)
  note TZ = repulsion_term [OF lz, unfolded Let_def]
  note TH = repulsion_term [OF lh, unfolded Let_def]
  have c1: "sqrt ((baseX (squares (update zero_engine) ! 0) - baseX (wrap (width zero_engine) (height zero_engine) (drift (time zero_engine + 1) 0 (squares zero_engine ! 0)))) * (baseX (squares (update zero_engine) ! 0) - baseX (wrap (width zero_engine) (height zero_engine) (drift (time zero_engine + 1) 0 (squares zero_engine ! 0))))
          + (baseY (squares (update zero_engine) ! 0) - baseY (wrap (width zero_engine) (height zero_engine) (drift (time zero_engine + 1) 0 (squares zero_engine ! 0)))) * (baseY (squares (update zero_engine) ! 0) - baseY (wrap (width zero_engine) (height zero_engine) (drift (time zero_engine + 1) 0 (squares zero_engine ! 0)))))
       = (150 - sqrt ((mouseX zero_engine - x_sq (squares (update zero_engine) ! 0)) * (mouseX zero_engine - x_sq (squares (update zero_engine) ! 0))
          + (mouseY zero_engine - y_sq (squares (update zero_engine) ! 0)) * (mouseY zero_engine - y_sq (squares (update zero_engine) ! 0)))) / 150 * 0.5"
    using TZ near by blast
  have c2: "(baseX (squares (update half_engine) ! 0) - baseX (wrap (width half_engine) (height half_engine) (drift (time half_engine + 1) 0 (squares half_engine ! 0)))) = 0
   \<and> (baseY (squares (update half_engine) ! 0) - baseY (wrap (width half_engine) (height half_engine) (drift (time half_engine + 1) 0 (squares half_engine ! 0)))) = 0"
    using TH far by blast
  have c3: "baseX (wrap (width half_engine) (height half_engine) (drift (time half_engine + 1) 0 (squares half_engine ! 0))) = baseX (squares half_engine ! 0) + sin (real (time half_engine + 1) * 0.0003 + real 0) * 0.1"
    using TH nwx by blast
  have c4: "baseY (wrap (width half_engine) (height half_engine) (drift (time half_engine + 1) 0 (squares half_engine ! 0))) = baseY (squares half_engine ! 0) + cos (real (time half_engine + 1) * 0.0003 + real 0) * 0.1"
    using TH nwy by blast
  show ?thesis
    using lz lh near far nwx nwy c1 c2 c3 c4 by blast
qed

lemma far_edge_tick:
  "squares (update far_edge_engine) ! 4 = update_square 1 500 300 800 600 4 edge_square"
  "x_sq (squares (update far_edge_engine) ! 4) = - 20"
  "y_sq (squares (update far_edge_engine) ! 4) = 300"
  "baseX (wrap 800 600 (drift 1 4 edge_square)) = 820"
  "sin (40003 / 10000 :: real) < 0"
proof -
  show u: "squares (update far_edge_engine) ! 4 = update_square 1 500 300 800 600 4 edge_square"
    using update_nth [of 4 far_edge_engine]
    by (simp add: far_edge_engine_def edge_engine_def numSquares_def)
  have a: "(1 / 2000 + (pi - 1 / 2000) :: real) = pi" "(1 / 2000 + (pi / 2 - 1 / 2000) :: real) = pi / 2"
    by simp_all
  show "x_sq (squares (update far_edge_engine) ! 4) = - 20"
    "y_sq (squares (update far_edge_engine) ! 4) = 300"
    unfolding u by (simp_all add: edge_square_def a)
  have "pi < 40003 / 10000" "40003 / 10000 < 2 * pi"
    using pi_less_4 pi_ge_three by linarith+
  then show neg: "sin (40003 / 10000 :: real) < 0"
    by (rule sin_lt_zero)
  have b: "baseX (drift 1 4 edge_square) = - 20 + sin (40003 / 10000) * (1 / 10)"
    by (simp add: edge_square_def)
  have sz: "size_sq (drift 1 4 edge_square) = 20"
    by (simp add: edge_square_def)
  have c: "- 20 + sin (40003 / 10000 :: real) * (1 / 10) < - 20"
    using neg by linarith
  show "baseX (wrap 800 600 (drift 1 4 edge_square)) = 820"
    by (simp only: wrap_baseX sz b c if_True)
qed


text \<open>
  C3 as stated lets the base change by the drift term alone when the pointer is out of
  reach. In \<open>far_edge_engine\<close> the pointer is 520 px from the displayed position of the
  square at index 4; its drift term \<open>sin 4.0003 * 0.1\<close> is negative and takes the base
  below \<open>-size\<close>, so the wrap of the same tick moves it to \<open>width + size\<close>: the base
  changes by 840.
\<close>

theorem drift_and_wrap_counterexample:
  "150 \<le> sqrt ((mouseX far_edge_engine - x_sq (squares (update far_edge_engine) ! 4)) * (mouseX far_edge_engine - x_sq (squares (update far_edge_engine) ! 4))
            + (mouseY far_edge_engine - y_sq (squares (update far_edge_engine) ! 4)) * (mouseY far_edge_engine - y_sq (squares (update far_edge_engine) ! 4)))
   \<and> baseX (squares (update far_edge_engine) ! 4) - baseX (squares far_edge_engine ! 4) = 840
   \<and> baseX (squares (update far_edge_engine) ! 4) - baseX (squares far_edge_engine ! 4)
       \<noteq> sin (real (time (update far_edge_engine)) * 0.0003 + real 4) * 0.1"
proof -
  have m: "mouseX far_edge_engine = 500" "mouseY far_edge_engine = 300"
    by (simp_all add: far_edge_engine_def edge_engine_def)
  have "sqrt (520 * 520) = (520::real)"
    by simp
  then have d: "sqrt ((mouseX far_edge_engine - x_sq (squares (update far_edge_engine) ! 4)) * (mouseX far_edge_engine - x_sq (squares (update far_edge_engine) ! 4))
            + (mouseY far_edge_engine - y_sq (squares (update far_edge_engine) ! 4)) * (mouseY far_edge_engine - y_sq (squares (update far_edge_engine) ! 4))) = 520"
    by (simp only: m far_edge_tick(2,3)) simp
  have d': "(520::real) = sqrt ((500 - x_sq (update_square 1 500 300 800 600 4 edge_square))
                                 * (500 - x_sq (update_square 1 500 300 800 600 4 edge_square))
                               + (300 - y_sq (update_square 1 500 300 800 600 4 edge_square))
                                 * (300 - y_sq (update_square 1 500 300 800 600 4 edge_square)))"
    using d by (simp only: m far_edge_tick(1))
  have nf: "\<not> ((520::real) < 150 \<and> (520::real) > 0)"
    by simp
  have "baseX (update_square 1 500 300 800 600 4 edge_square) = 820"
    using update_square_far(1) [OF d' nf] by (simp only: far_edge_tick(4))
  then have after: "baseX (squares (update far_edge_engine) ! 4) = 820"
    by (simp only: far_edge_tick(1))
  have before: "baseX (squares far_edge_engine ! 4) = - 20"
    by (simp add: far_edge_engine_def edge_engine_def numSquares_def edge_square_def)
  have delta: "baseX (squares (update far_edge_engine) ! 4) - baseX (squares far_edge_engine ! 4) = 840"
    by (simp only: after before)
  have "sin (real (time (update far_edge_engine)) * 0.0003 + real 4) * 0.1 \<le> (1 / 10 :: real)"
    using sin_le_one [of "real (time (update far_edge_engine)) * 0.0003 + real 4"] by linarith
  then have ne: "baseX (squares (update far_edge_engine) ! 4) - baseX (squares far_edge_engine ! 4)
            \<noteq> sin (real (time (update far_edge_engine)) * 0.0003 + real 4) * 0.1"
    unfolding delta by linarith
  have far: "150 \<le> sqrt ((mouseX far_edge_engine - x_sq (squares (update far_edge_engine) ! 4)) * (mouseX far_edge_engine - x_sq (squares (update far_edge_engine) ! 4))
            + (mouseY far_edge_engine - y_sq (squares (update far_edge_engine) ! 4)) * (mouseY far_edge_engine - y_sq (squares (update far_edge_engine) ! 4)))"
    by (simp only: d)
  show ?thesis
    using far delta ne by blast
qed

subsection \<open>Displayed position\<close>

text \<open>
  C4 (amended). At the end of an update tick the displayed position of a square is the
  base position it had when the tick started (before the drift, wrap and repulsion of
  that tick) plus the oscillation offset at the new frame counter; the parameters of the
  oscillation are not changed by the tick.
\<close>

theorem displayed_from_previous_base:
  assumes "i < length (squares st)"
  shows "x_sq (squares (update st) ! i)
           = baseX (squares st ! i)
             + sin (real (time (update st)) * 0.001 * speedX (squares st ! i) + phaseX (squares st ! i))
               * amplitudeX (squares st ! i)
         \<and> y_sq (squares (update st) ! i)
           = baseY (squares st ! i)
             + cos (real (time (update st)) * 0.001 * speedY (squares st ! i) + phaseY (squares st ! i))
               * amplitudeY (squares st ! i)
         \<and> time (update st) = time st + 1
         \<and> speedX (squares (update st) ! i) = speedX (squares st ! i)
         \<and> speedY (squares (update st) ! i) = speedY (squares st ! i)
         \<and> phaseX (squares (update st) ! i) = phaseX (squares st ! i)
         \<and> phaseY (squares (update st) ! i) = phaseY (squares st ! i)
         \<and> amplitudeX (squares (update st) ! i) = amplitudeX (squares st ! i)
         \<and> amplitudeY (squares (update st) ! i) = amplitudeY (squares st ! i)"
  using assms by (simp add: update_nth)

theorem displayed_from_previous_base_witness:
  "0 < length (squares zero_engine)
   \<and> x_sq (squares (update zero_engine) ! 0)
       = baseX (squares zero_engine ! 0)
         + sin (real (time (update zero_engine)) * 0.001 * speedX (squares zero_engine ! 0)
                + phaseX (squares zero_engine ! 0))
           * amplitudeX (squares zero_engine ! 0)
   \<and> x_sq (squares (update zero_engine) ! 0) = sin (3 / 10000) * 20"
proof -
  have l: "0 < length (squares zero_engine)"
    by (simp add: zero_engine_fields)
  show ?thesis
    using l displayed_from_previous_base [OF l] zero_first_tick(2) by simp
qed

text \<open>
  C4 as stated has the displayed position recomputed from the updated base. In the first
  tick of \<open>zero_engine\<close> the base of the first square moves from 0 to
  \<open>sin (3/10000) * 8/15\<close> (drift and repulsion from the pointer at the origin), while
  the displayed position is \<open>0 + sin (3/10000) * 20\<close>, computed before that.
\<close>

theorem displayed_not_from_updated_base_counterexample:
  "x_sq (squares (update zero_engine) ! 0)
     \<noteq> baseX (squares (update zero_engine) ! 0)
       + sin (real (time (update zero_engine)) * 0.001 * speedX (squares (update zero_engine) ! 0)
              + phaseX (squares (update zero_engine) ! 0))
         * amplitudeX (squares (update zero_engine) ! 0)"
proof -
  have osc: "sin (real (time (update zero_engine)) * 0.001 * speedX (squares (update zero_engine) ! 0)
                  + phaseX (squares (update zero_engine) ! 0))
               * amplitudeX (squares (update zero_engine) ! 0) = sin (3 / 10000) * 20"
    by (simp add: zero_first_tick(1) zero_engine_fields new_square_zero)
  have ne: "sin (3 / 10000) * 20 \<noteq> sin (3 / 10000) * (8 / 15) + sin (3 / 10000 :: real) * 20"
    using small_angle(3) by simp
  show ?thesis
    unfolding osc zero_first_tick(2) zero_first_tick_base by (rule ne)
qed

subsection \<open>Events and the pointer\<close>

lemma createSquares_fields [simp]:
  "time (createSquares rnd st) = time st" "mouseX (createSquares rnd st) = mouseX st"
  "mouseY (createSquares rnd st) = mouseY st" "isRunning (createSquares rnd st) = isRunning st"
  "width (createSquares rnd st) = width st" "height (createSquares rnd st) = height st"
  "length (squares (createSquares rnd st)) = numSquares"
  by (simp_all add: createSquares_def)

lemma resize_fields [simp]:
  "time (resize rw rh st) = time st" "mouseX (resize rw rh st) = mouseX st"
  "mouseY (resize rw rh st) = mouseY st" "isRunning (resize rw rh st) = isRunning st"
  "width (resize rw rh st) = rw" "height (resize rw rh st) = rh"
  "squares (resize rw rh st) = squares st"
  by (simp_all add: resize_def)

lemma animate_mouse [simp]:
  "mouseX (eng (animate sys)) = mouseX (eng sys)" "mouseY (eng (animate sys)) = mouseY (eng sys)"
  by (simp_all add: animate_def Let_def)

lemma handle_mouse:
  "\<not> is_mouse_move e \<Longrightarrow>
   mouseX (eng (handle sys e)) = mouseX (eng sys) \<and> mouseY (eng (handle sys e)) = mouseY (eng sys)"
  by (cases e) (simp_all add: Let_def)

lemma run_mouse:
  "\<forall>e \<in> set evs. \<not> is_mouse_move e \<Longrightarrow>
   mouseX (eng (run sys evs)) = mouseX (eng sys) \<and> mouseY (eng (run sys evs)) = mouseY (eng sys)"
proof (induction evs arbitrary: sys)
  case Nil
  show ?case by (simp add: run_def)
next
  case (Cons e evs)
  have "run sys (e # evs) = run (handle sys e) evs"
    by (simp add: run_def)
  then show ?case
    using Cons.IH [of "handle sys e"] Cons.prems handle_mouse [of e sys] by simp
qed

lemma constructor_eng:
  "eng (constructor rw rh rnd) = update (init rw rh rnd fresh_engine)"
  by (simp add: constructor_def animate_def Let_def)

text \<open>
  C10. The constructor sets the pointer to \<open>(0, 0)\<close> and only a mouse-move event changes
  it, so the first tick, which the constructor itself runs on the state left by
  \<open>init()\<close>, and every tick after any events other than mouse moves, sees the pointer at
  the origin. In such a tick a square whose displayed position \<open>(x, y)\<close> is at a distance
  \<open>0 < d < 150\<close> from the origin ends with its drifted and wrapped base \<open>b\<close> moved by
  \<open>(x/d, y/d) * (150-d)/150 * 0.5\<close>, that is, away from the origin.
\<close>

theorem initial_pointer_repels_from_origin:
  assumes "\<forall>e \<in> set evs. \<not> is_mouse_move e"
    and "st = init rw rh rnd fresh_engine \<or> st = eng (run (constructor rw rh rnd) evs)"
    and "i < length (squares st)"
  shows "mouseX st = 0 \<and> mouseY st = 0
         \<and> eng (constructor rw rh rnd) = update (init rw rh rnd fresh_engine)
         \<and> (let s = squares (update st) ! i;
                 b = wrap (width st) (height st) (drift (time st + 1) i (squares st ! i));
                 d = sqrt (x_sq s * x_sq s + y_sq s * y_sq s)
             in 0 < d \<and> d < 150 \<longrightarrow>
                  baseX s = baseX b + (x_sq s / d) * ((150 - d) / 150) * 0.5
                  \<and> baseY s = baseY b + (y_sq s / d) * ((150 - d) / 150) * 0.5
                  \<and> 0 < (baseX s - baseX b) * x_sq s + (baseY s - baseY b) * y_sq s)"
proof -
  have m0: "mouseX (eng (constructor rw rh rnd)) = 0" "mouseY (eng (constructor rw rh rnd)) = 0"
    by (simp_all add: constructor_eng)
  have m: "mouseX st = 0" "mouseY st = 0"
    using assms(2) run_mouse [OF assms(1), of "constructor rw rh rnd"] m0 by auto
  define s where "s = squares (update st) ! i"
  define b where "b = wrap (width st) (height st) (drift (time st + 1) i (squares st ! i))"
  define d where "d = sqrt (x_sq s * x_sq s + y_sq s * y_sq s)"
  have near: "baseX s = baseX b + (x_sq s / d) * ((150 - d) / 150) * 0.5
              \<and> baseY s = baseY b + (y_sq s / d) * ((150 - d) / 150) * 0.5
              \<and> 0 < (baseX s - baseX b) * x_sq s + (baseY s - baseY b) * y_sq s"
    if "0 < d" "d < 150"
  proof -
    have dd: "d = sqrt ((mouseX st - x_sq s) * (mouseX st - x_sq s)
                        + (mouseY st - y_sq s) * (mouseY st - y_sq s))"
      unfolding m d_def by simp
    note T = update_near [OF assms(3) dd [unfolded s_def] that, folded s_def b_def, unfolded m]
    have ox: "baseX s - baseX b = - ((0 - x_sq s) / d) * ((150 - d) / 150) * 0.5"
      and oy: "baseY s - baseY b = - ((0 - y_sq s) / d) * ((150 - d) / 150) * 0.5"
      and dot: "(baseX s - baseX b) * (0 - x_sq s) + (baseY s - baseY b) * (0 - y_sq s) < 0"
      by (rule T(1), rule T(2), rule T(4))
    have "baseX s = baseX b + (x_sq s / d) * ((150 - d) / 150) * 0.5"
      using ox by (simp add: field_simps)
    moreover have "baseY s = baseY b + (y_sq s / d) * ((150 - d) / 150) * 0.5"
      using oy by (simp add: field_simps)
    moreover have "0 < (baseX s - baseX b) * x_sq s + (baseY s - baseY b) * y_sq s"
      using dot by (simp add: algebra_simps)
    ultimately show ?thesis
      by blast
  qed
  show ?thesis
    unfolding Let_def s_def [symmetric] b_def [symmetric] d_def [symmetric]
    using m near constructor_eng [of rw rh rnd] by blast
qed


theorem initial_pointer_repels_from_origin_witness:
  "\<not> is_mouse_move AnimationFrame
   \<and> zero_engine = init 800 600 rnd_zero fresh_engine
   \<and> 0 < length (squares zero_engine)
   \<and> mouseX zero_engine = 0 \<and> mouseY zero_engine = 0
   \<and> 0 < sqrt (x_sq (squares (update zero_engine) ! 0) * x_sq (squares (update zero_engine) ! 0) + y_sq (squares (update zero_engine) ! 0) * y_sq (squares (update zero_engine) ! 0))
   \<and> sqrt (x_sq (squares (update zero_engine) ! 0) * x_sq (squares (update zero_engine) ! 0) + y_sq (squares (update zero_engine) ! 0) * y_sq (squares (update zero_engine) ! 0)) < 150
   \<and> baseX (squares (update zero_engine) ! 0) = baseX (wrap (width zero_engine) (height zero_engine) (drift (time zero_engine + 1) 0 (squares zero_engine ! 0)))
       + (x_sq (squares (update zero_engine) ! 0) / sqrt (x_sq (squares (update zero_engine) ! 0) * x_sq (squares (update zero_engine) ! 0) + y_sq (squares (update zero_engine) ! 0) * y_sq (squares (update zero_engine) ! 0)))
         * ((150 - sqrt (x_sq (squares (update zero_engine) ! 0) * x_sq (squares (update zero_engine) ! 0) + y_sq (squares (update zero_engine) ! 0) * y_sq (squares (update zero_engine) ! 0))) / 150) * 0.5
   \<and> 0 < (baseX (squares (update zero_engine) ! 0) - baseX (wrap (width zero_engine) (height zero_engine) (drift (time zero_engine + 1) 0 (squares zero_engine ! 0)))) * x_sq (squares (update zero_engine) ! 0)
       + (baseY (squares (update zero_engine) ! 0) - baseY (wrap (width zero_engine) (height zero_engine) (drift (time zero_engine + 1) 0 (squares zero_engine ! 0)))) * y_sq (squares (update zero_engine) ! 0)"
proof -
  have h1: "\<forall>e \<in> set [AnimationFrame]. \<not> is_mouse_move e"
    by simp
  have h2: "zero_engine = init 800 600 rnd_zero fresh_engine
            \<or> zero_engine = eng (run (constructor 800 600 rnd_zero) [AnimationFrame])"
    by (simp add: zero_engine_def)
  have h3: "0 < length (squares zero_engine)"
    by (simp add: zero_engine_fields)
  have near: "0 < sqrt (x_sq (squares (update zero_engine) ! 0) * x_sq (squares (update zero_engine) ! 0) + y_sq (squares (update zero_engine) ! 0) * y_sq (squares (update zero_engine) ! 0))
   \<and> sqrt (x_sq (squares (update zero_engine) ! 0) * x_sq (squares (update zero_engine) ! 0) + y_sq (squares (update zero_engine) ! 0) * y_sq (squares (update zero_engine) ! 0)) < 150"
    by (simp only: zero_first_tick_dist(2)) simp
  note T = initial_pointer_repels_from_origin [OF h1 h2 h3, unfolded Let_def]
  have c1: "baseX (squares (update zero_engine) ! 0) = baseX (wrap (width zero_engine) (height zero_engine) (drift (time zero_engine + 1) 0 (squares zero_engine ! 0)))
       + (x_sq (squares (update zero_engine) ! 0) / sqrt (x_sq (squares (update zero_engine) ! 0) * x_sq (squares (update zero_engine) ! 0) + y_sq (squares (update zero_engine) ! 0) * y_sq (squares (update zero_engine) ! 0)))
         * ((150 - sqrt (x_sq (squares (update zero_engine) ! 0) * x_sq (squares (update zero_engine) ! 0) + y_sq (squares (update zero_engine) ! 0) * y_sq (squares (update zero_engine) ! 0))) / 150) * 0.5"
    using T near by blast
  have c2: "0 < (baseX (squares (update zero_engine) ! 0) - baseX (wrap (width zero_engine) (height zero_engine) (drift (time zero_engine + 1) 0 (squares zero_engine ! 0)))) * x_sq (squares (update zero_engine) ! 0)
       + (baseY (squares (update zero_engine) ! 0) - baseY (wrap (width zero_engine) (height zero_engine) (drift (time zero_engine + 1) 0 (squares zero_engine ! 0)))) * y_sq (squares (update zero_engine) ! 0)"
    using T near by blast
  have m: "mouseX zero_engine = 0 \<and> mouseY zero_engine = 0"
    using T by blast
  have e: "zero_engine = init 800 600 rnd_zero fresh_engine" "\<not> is_mouse_move AnimationFrame"
    by (simp_all add: zero_engine_def)
  show ?thesis
    using e h3 m near c1 c2 by blast
qed

subsection \<open>Fold amount\<close>

text \<open>
  C2 (amended). The fold amount that \<open>drawFoldedSquare\<close> derives from a square is
  \<open>sin (foldState * \<pi>) * 0.5\<close>, the sine of the \<open>foldState\<close> field multiplied by \<open>\<pi>\<close>, and
  it lies in \<open>[-0.5, 0.5]\<close>.
\<close>

theorem fold_amount_range:
  "fold_sq sq = sin (foldState sq * pi) * 0.5 \<and> - 0.5 \<le> fold_sq sq \<and> fold_sq sq \<le> 0.5"
proof -
  have "- 1 \<le> sin (foldState sq * pi)" "sin (foldState sq * pi) \<le> 1"
    by simp_all
  then show ?thesis
    unfolding fold_sq_def by linarith
qed

text \<open>
  C2 as stated takes the sine of the fold phase itself. A square fresh from
  \<open>createSquares\<close> with all random results 1/2 has fold phase 1/2: its fold amount is
  \<open>sin (\<pi>/2) * 0.5 = 0.5\<close>, not \<open>sin (1/2) * 0.5\<close>, which is at most 0.25.
\<close>

theorem fold_amount_counterexample:
  "fold_sq (squares half_engine ! 0) \<noteq> sin (foldState (squares half_engine ! 0)) * 0.5"
proof -
  have fs: "foldState (squares half_engine ! 0) = 1 / 2"
    by (simp add: half_engine_fields new_square_half)
  have "sin (1 / 2 :: real) \<le> 1 / 2"
    by (rule sin_x_le_x) simp
  then have ne: "sin (1 / 2 * pi) * 0.5 \<noteq> sin (1 / 2 :: real) * 0.5"
    by simp
  show ?thesis
    unfolding fold_sq_def fs by (rule ne)
qed

subsection \<open>No division by zero, zero-sized surface\<close>

lemma mouse_interaction_checked_total:
  "mouse_interaction_checked mx my sq = Some (mouse_interaction mx my sq)"
  by (simp add: mouse_interaction_checked_def mouse_interaction_def checked_div_def Let_def)

lemma those_map_Some: "those (map (\<lambda>x. Some (f x)) xs) = Some (map f xs)"
  by (induction xs) simp_all

lemma update_checked_total: "update_checked st = Some (update st)"
proof -
  have "(\<lambda>(i, sq). update_square_checked (time st + 1) (mouseX st) (mouseY st) (width st) (height st) i sq)
          = (\<lambda>p. Some ((\<lambda>(i, sq). update_square (time st + 1) (mouseX st) (mouseY st)
                                     (width st) (height st) i sq) p))"
    by (rule ext)
      (simp add: update_square_checked_def update_square_def mouse_interaction_checked_total
        split: prod.split)
  then show ?thesis
    by (simp add: update_checked_def update_def Let_def those_map_Some)
qed

lemma grid_lines_empty:
  "vertical_lines t 0 h 0 = []" "horizontal_lines t w 0 0 = []"
  by (subst vertical_lines.simps, simp) (subst horizontal_lines.simps, simp)

lemma draw_zero_width:
  "draw (st\<lparr>width := 0\<rparr>)
     = [FillStyle (Color (colors ''bg'')), FillRect 0 0 0 (height st),
        StrokeStyle (Color (colors ''white'')), LineWidth 0.5, GlobalAlpha 0.03]
       @ horizontal_lines (time st) 0 (height st) 0
       @ concat (map drawFoldedSquare (squares st))
       @ [FillStyle (RadialGradient 0 (height st / 2) 0 0 (height st / 2) (max 0 (height st) * 0.7)
                       [(0, ''rgba(30, 31, 26, 0)''), (1, ''rgba(30, 31, 26, 0.4)'')]),
          FillRect 0 0 0 (height st)]"
  by (simp add: draw_def drawGridLines_def grid_lines_empty)

lemma draw_zero_height:
  "draw (st\<lparr>height := 0\<rparr>)
     = [FillStyle (Color (colors ''bg'')), FillRect 0 0 (width st) 0,
        StrokeStyle (Color (colors ''white'')), LineWidth 0.5, GlobalAlpha 0.03]
       @ vertical_lines (time st) (width st) 0 0
       @ concat (map drawFoldedSquare (squares st))
       @ [FillStyle (RadialGradient (width st / 2) 0 0 (width st / 2) 0 (max (width st) 0 * 0.7)
                       [(0, ''rgba(30, 31, 26, 0)''), (1, ''rgba(30, 31, 26, 0.4)'')]),
          FillRect 0 0 (width st) 0]"
  by (simp add: draw_def drawGridLines_def grid_lines_empty)

lemma bitmap_empty:
  "rw = 0 \<or> rh = 0 \<Longrightarrow> bitmap (resize_canvas devicePixelRatio rw rh) = {}"
  by (auto simp add: bitmap_def resize_canvas_def Let_def)


text \<open>
  C7. With every division by a variable replaced by one that fails on a zero divisor,
  the update step still returns a result, the one of the plain update, for every state
  (any pointer position, any surface size, zero included): the guard \<open>dist > 0\<close> keeps
  the only such divisions, by \<open>dist\<close>, away from zero, and a square whose displayed
  position coincides with the pointer is left as it is. So a frame always completes.
  Drawing divides by literal constants only, and its two grid loops terminate for every
  width and height (they are total functions). On a surface with a side of length 0,
  \<open>draw\<close> issues no grid line across that side and \<open>fillRect\<close> calls of an empty
  rectangle, next to the remaining grid lines and the paths of the squares. None of it
  shows: \<open>resize()\<close> gives the canvas the rectangle's sides times the pixel ratio, so with
  width 0 or height 0 its bitmap has no pixel, and whatever the host paints for the
  calls of the next frame, no pixel is visible.
\<close>

theorem frame_never_divides_by_zero:
  "update_checked st = Some (update st)
   \<and> animate_checked sys = Some (animate sys)
   \<and> mouse_interaction_checked (x_sq sq) (y_sq sq) sq = Some sq
   \<and> vertical_lines t 0 h 0 = []
   \<and> horizontal_lines t w 0 0 = []
   \<and> draw (st\<lparr>width := 0, height := 0\<rparr>)
       = [FillStyle (Color (colors ''bg'')), FillRect 0 0 0 0,
          StrokeStyle (Color (colors ''white'')), LineWidth 0.5, GlobalAlpha 0.03]
         @ concat (map drawFoldedSquare (squares st))
         @ [FillStyle (RadialGradient 0 0 0 0 0 0
                         [(0, ''rgba(30, 31, 26, 0)''), (1, ''rgba(30, 31, 26, 0.4)'')]),
            FillRect 0 0 0 0]
   \<and> draw (st\<lparr>width := 0\<rparr>)
       = [FillStyle (Color (colors ''bg'')), FillRect 0 0 0 (height st),
          StrokeStyle (Color (colors ''white'')), LineWidth 0.5, GlobalAlpha 0.03]
         @ horizontal_lines (time st) 0 (height st) 0
         @ concat (map drawFoldedSquare (squares st))
         @ [FillStyle (RadialGradient 0 (height st / 2) 0 0 (height st / 2) (max 0 (height st) * 0.7)
                         [(0, ''rgba(30, 31, 26, 0)''), (1, ''rgba(30, 31, 26, 0.4)'')]),
            FillRect 0 0 0 (height st)]
   \<and> draw (st\<lparr>height := 0\<rparr>)
       = [FillStyle (Color (colors ''bg'')), FillRect 0 0 (width st) 0,
          StrokeStyle (Color (colors ''white'')), LineWidth 0.5, GlobalAlpha 0.03]
         @ vertical_lines (time st) (width st) 0 0
         @ concat (map drawFoldedSquare (squares st))
         @ [FillStyle (RadialGradient (width st / 2) 0 0 (width st / 2) 0 (max (width st) 0 * 0.7)
                         [(0, ''rgba(30, 31, 26, 0)''), (1, ''rgba(30, 31, 26, 0.4)'')]),
            FillRect 0 0 (width st) 0]
   \<and> (rw = 0 \<or> rh = 0 \<longrightarrow>
        width (update (createSquares rnd (resize rw rh st))) = rw
        \<and> height (update (createSquares rnd (resize rw rh st))) = rh
        \<and> update_checked (createSquares rnd (resize rw rh st)) = Some (update (createSquares rnd (resize rw rh st)))
        \<and> bitmap (resize_canvas devicePixelRatio rw rh) = {}
        \<and> visible raster (resize_canvas devicePixelRatio rw rh) (draw (update (createSquares rnd (resize rw rh st)))) = {})"
proof -
  have a: "animate_checked sys = Some (animate sys)"
    by (simp add: animate_checked_def animate_def update_checked_total Let_def)
  have m: "mouse_interaction_checked (x_sq sq) (y_sq sq) sq = Some sq"
    by (simp add: mouse_interaction_checked_def Let_def)
  have d: "draw (st\<lparr>width := 0, height := 0\<rparr>)
       = [FillStyle (Color (colors ''bg'')), FillRect 0 0 0 0,
          StrokeStyle (Color (colors ''white'')), LineWidth 0.5, GlobalAlpha 0.03]
         @ concat (map drawFoldedSquare (squares st))
         @ [FillStyle (RadialGradient 0 0 0 0 0 0
                         [(0, ''rgba(30, 31, 26, 0)''), (1, ''rgba(30, 31, 26, 0.4)'')]),
            FillRect 0 0 0 0]"
    by (simp add: draw_def drawGridLines_def grid_lines_empty)
  have z: "width (update (createSquares rnd (resize rw rh st))) = rw
           \<and> height (update (createSquares rnd (resize rw rh st))) = rh
           \<and> update_checked (createSquares rnd (resize rw rh st)) = Some (update (createSquares rnd (resize rw rh st)))
           \<and> bitmap (resize_canvas devicePixelRatio rw rh) = {}
           \<and> visible raster (resize_canvas devicePixelRatio rw rh) (draw (update (createSquares rnd (resize rw rh st)))) = {}"
    if "rw = 0 \<or> rh = 0"
    using bitmap_empty [OF that] by (simp add: visible_def update_checked_total)
  show ?thesis
    using update_checked_total a m grid_lines_empty d draw_zero_width draw_zero_height z by blast
qed

theorem frame_never_divides_by_zero_witness:
  "((0::real) = 0 \<or> (80::real) = 0)
   \<and> width (update (createSquares rnd_zero (resize 0 80 zero_engine))) = 0
   \<and> draw (update (createSquares rnd_zero (resize 0 80 zero_engine))) \<noteq> []
   \<and> update_checked (createSquares rnd_zero (resize 0 80 zero_engine))
       = Some (update (createSquares rnd_zero (resize 0 80 zero_engine)))
   \<and> bitmap (resize_canvas 2 0 80) = {}
   \<and> visible (\<lambda>cmds. UNIV) (resize_canvas 2 0 80)
         (draw (update (createSquares rnd_zero (resize 0 80 zero_engine)))) = {}"
proof -
  have h: "(0::real) = 0 \<or> (80::real) = 0"
    by simp
  have ne: "draw (update (createSquares rnd_zero (resize 0 80 zero_engine))) \<noteq> []"
    by (simp add: draw_def)
  have T: "(0::real) = 0 \<or> (80::real) = 0 \<longrightarrow>
        width (update (createSquares rnd_zero (resize 0 80 zero_engine))) = 0
        \<and> height (update (createSquares rnd_zero (resize 0 80 zero_engine))) = 80
        \<and> update_checked (createSquares rnd_zero (resize 0 80 zero_engine))
            = Some (update (createSquares rnd_zero (resize 0 80 zero_engine)))
        \<and> bitmap (resize_canvas 2 0 80) = {}
        \<and> visible (\<lambda>cmds. UNIV) (resize_canvas 2 0 80)
              (draw (update (createSquares rnd_zero (resize 0 80 zero_engine)))) = {}"
    using frame_never_divides_by_zero
      [of zero_engine _ _ _ _ _ 0 80 rnd_zero 2 "\<lambda>cmds. UNIV"]
    by blast
  show ?thesis
    using h ne T by blast
qed

subsection \<open>Regeneration\<close>

lemma new_square_in_surface:
  assumes "\<forall>k. 0 \<le> rnd k \<and> rnd k < 1" and "0 \<le> w" and "0 \<le> h"
  shows "0 \<le> baseX (new_square rnd w h i) \<and> baseX (new_square rnd w h i) \<le> w
         \<and> 0 \<le> baseY (new_square rnd w h i) \<and> baseY (new_square rnd w h i) \<le> h
         \<and> 0 \<le> x_sq (new_square rnd w h i) \<and> x_sq (new_square rnd w h i) \<le> w
         \<and> 0 \<le> y_sq (new_square rnd w h i) \<and> y_sq (new_square rnd w h i) \<le> h"
proof -
  have b: "0 \<le> r * d \<and> r * d \<le> d" if "0 \<le> r" "r < 1" "0 \<le> d" for r d :: real
  proof -
    have "r * d \<le> 1 * d"
      using that by (intro mult_right_mono) simp_all
    then show ?thesis
      using that by simp
  qed
  have r: "0 \<le> rnd k" "rnd k < 1" for k
    using assms(1) by simp_all
  show ?thesis
    using b [OF r assms(2)] b [OF r assms(3)] by (simp add: new_square_def Let_def)
qed

text \<open>
  C8. A resize event, whatever the state it arrives in, leaves exactly 40 squares,
  sorted ascending by layer, each with base position (and initial displayed position)
  inside the new surface \<open>[0, width] \<times> [0, height]\<close>; the set is the one \<open>init()\<close> builds
  from the same random results on a fresh instance, so it depends on the new size and
  the random results only and carries nothing over from the squares before. The random
  results are taken in \<open>[0, 1)\<close>, the rectangle's sides non-negative.
\<close>

theorem regeneration_produces_fresh_sorted_set:
  assumes "\<forall>k. 0 \<le> rnd k \<and> rnd k < 1" and "0 \<le> rw" and "0 \<le> rh"
  shows "(let e = eng (handle sys (Resize rw rh rnd))
          in length (squares e) = 40
             \<and> sorted (map layer (squares e))
             \<and> (\<forall>s \<in> set (squares e).
                    0 \<le> baseX s \<and> baseX s \<le> rw \<and> 0 \<le> baseY s \<and> baseY s \<le> rh
                    \<and> 0 \<le> x_sq s \<and> x_sq s \<le> rw \<and> 0 \<le> y_sq s \<and> y_sq s \<le> rh)
             \<and> width e = rw \<and> height e = rh
             \<and> squares e = sort_key layer (map (new_square rnd rw rh) [0..<40])
             \<and> squares e = squares (init rw rh rnd fresh_engine))"
proof -
  define e where "e = eng (handle sys (Resize rw rh rnd))"
  have sq: "squares e = sort_key layer (map (new_square rnd rw rh) [0..<40])"
    by (simp add: e_def createSquares_def resize_def numSquares_def)
  have same: "squares e = squares (init rw rh rnd fresh_engine)"
    by (simp add: sq init_def createSquares_def resize_def numSquares_def)
  have len: "length (squares e) = 40"
    by (simp add: sq)
  have srt: "sorted (map layer (squares e))"
    unfolding sq by (rule sorted_sort_key)
  have dims: "width e = rw" "height e = rh"
    by (simp_all add: e_def)
  have inside: "0 \<le> baseX s \<and> baseX s \<le> rw \<and> 0 \<le> baseY s \<and> baseY s \<le> rh
                \<and> 0 \<le> x_sq s \<and> x_sq s \<le> rw \<and> 0 \<le> y_sq s \<and> y_sq s \<le> rh"
    if "s \<in> set (squares e)" for s
  proof -
    from that obtain i where "s = new_square rnd rw rh i"
      unfolding sq by auto
    then show ?thesis
      using new_square_in_surface [OF assms, of i] by simp
  qed
  show ?thesis
    unfolding Let_def e_def [symmetric] using len srt inside dims sq same by blast
qed


theorem regeneration_produces_fresh_sorted_set_witness:
  "(\<forall>k. 0 \<le> rnd_half k \<and> rnd_half k < 1) \<and> (0::real) \<le> 400 \<and> (0::real) \<le> 300
   \<and> length (squares (eng (handle (constructor 800 600 rnd_zero) (Resize 400 300 rnd_half)))) = 40
   \<and> sorted (map layer (squares (eng (handle (constructor 800 600 rnd_zero) (Resize 400 300 rnd_half)))))
   \<and> width (eng (handle (constructor 800 600 rnd_zero) (Resize 400 300 rnd_half))) = 400
   \<and> height (eng (handle (constructor 800 600 rnd_zero) (Resize 400 300 rnd_half))) = 300
   \<and> squares (eng (handle (constructor 800 600 rnd_zero) (Resize 400 300 rnd_half)))
       = squares (init 400 300 rnd_half fresh_engine)
   \<and> baseX (squares (eng (handle (constructor 800 600 rnd_zero) (Resize 400 300 rnd_half))) ! 0) = 200
   \<and> baseY (squares (eng (handle (constructor 800 600 rnd_zero) (Resize 400 300 rnd_half))) ! 0) = 150"
proof -
  have h1: "\<forall>k. 0 \<le> rnd_half k \<and> rnd_half k < 1"
    by (simp add: rnd_half_def)
  have h2: "(0::real) \<le> 400" and h3: "(0::real) \<le> 300"
    by simp_all
  note T = regeneration_produces_fresh_sorted_set [OF h1 h2 h3, of "constructor 800 600 rnd_zero",
      unfolded Let_def]
  have same: "squares (eng (handle (constructor 800 600 rnd_zero) (Resize 400 300 rnd_half)))
                = squares (init 400 300 rnd_half fresh_engine)"
    using T by blast
  have b: "baseX (squares (eng (handle (constructor 800 600 rnd_zero) (Resize 400 300 rnd_half))) ! 0) = 200"
    "baseY (squares (eng (handle (constructor 800 600 rnd_zero) (Resize 400 300 rnd_half))) ! 0) = 150"
    unfolding same by (simp_all add: init_half_nth numSquares_def new_square_half)
  show ?thesis
    using h1 h2 h3 T b by blast
qed

subsection \<open>Pause and resume\<close>

lemma paused_frames:
  "\<not> isRunning (eng sys) \<Longrightarrow>
   run sys (replicate k AnimationFrame) = sys\<lparr>pending := pending sys - k\<rparr>"
proof (induction k arbitrary: sys)
  case 0
  show ?case by (simp add: run_def)
next
  case (Suc k)
  have step: "handle sys AnimationFrame = sys\<lparr>pending := pending sys - 1\<rparr>"
    using Suc.prems by (simp add: animate_def)
  have "run sys (replicate (Suc k) AnimationFrame)
          = run (handle sys AnimationFrame) (replicate k AnimationFrame)"
    by (simp add: run_def)
  also have "\<dots> = (sys\<lparr>pending := pending sys - 1\<rparr>)\<lparr>pending := pending sys - 1 - k\<rparr>"
    unfolding step using Suc.prems by (subst Suc.IH) simp_all
  finally show ?case
    by simp
qed

text \<open>
  C9. After the visibility listener has paused the loop (\<open>document.hidden\<close> true), any
  number \<open>k\<close> of frame callbacks leaves the instance as it was, but for the running flag:
  frame counter, squares, pointer and the last drawing are unchanged and nothing is
  scheduled. When the listener resumes the loop it runs \<open>animate()\<close> at once: one
  ordinary update of the state from before the pause, so the counter goes on from its
  prior value by one, whatever \<open>k\<close> was.
\<close>

theorem pause_resume_keeps_state:
  "(let paused = run sys (VisibilityChange True # replicate k AnimationFrame);
        resumed = handle paused (VisibilityChange False)
    in eng paused = (eng sys)\<lparr>isRunning := False\<rparr>
       \<and> time (eng paused) = time (eng sys)
       \<and> squares (eng paused) = squares (eng sys)
       \<and> painted paused = painted sys
       \<and> pending paused = pending sys - k
       \<and> eng resumed = update ((eng sys)\<lparr>isRunning := True\<rparr>)
       \<and> time (eng resumed) = time (eng sys) + 1
       \<and> isRunning (eng resumed)
       \<and> pending resumed = pending sys - k + 1)"
proof -
  define s1 where "s1 = handle sys (VisibilityChange True)"
  have s1: "s1 = sys\<lparr>eng := (eng sys)\<lparr>isRunning := False\<rparr>\<rparr>"
    by (simp add: s1_def Let_def)
  have nr: "\<not> isRunning (eng s1)"
    by (simp add: s1)
  have "run sys (VisibilityChange True # replicate k AnimationFrame)
          = run s1 (replicate k AnimationFrame)"
    by (simp add: run_def s1_def)
  also have "\<dots> = s1\<lparr>pending := pending s1 - k\<rparr>"
    by (rule paused_frames [OF nr])
  finally have p: "run sys (VisibilityChange True # replicate k AnimationFrame)
                     = sys\<lparr>eng := (eng sys)\<lparr>isRunning := False\<rparr>, pending := pending sys - k\<rparr>"
    by (simp add: s1)
  show ?thesis
    unfolding Let_def p by (simp add: animate_def Let_def)
qed

end
